theory Spec2Isabelle
  imports Main "HOL-Library.Word" "HOL-Library.Sublist" "HOL-Library.Multiset"
begin

section \<open>Block descriptors\<close>

text \<open>
  The replication engine of package \<open>replicate\<close> works on parsed block descriptors
  (\<open>metadata.Meta\<close>).  Only the fields the engine reads are kept.  A block identifier
  (\<open>ulid.ULID\<close>) is represented by its canonical text, the value of \<open>id.String()\<close>:
  26 characters of Crockford base 32, hence without any path separator.  \<open>MinTime\<close>,
  \<open>Resolution\<close> (both \<open>int64\<close>) and \<open>Level\<close> (\<open>int\<close>) are only compared, never
  computed with, so they are integers here.  The Go map of external labels is the list of
  its entries; its \<open>len\<close> is the length of that list.
\<close>

type_synonym bytes = "8 word list"

datatype ulid = Ulid string

fun ulidString :: "ulid \<Rightarrow> string" where
  "ulidString (Ulid s) = s"

record tsdb_BlockMetaCompaction =
  Level :: int

record tsdb_BlockMeta =
  ULID :: ulid
  MinTime :: int
  MaxTime :: int
  Compaction :: tsdb_BlockMetaCompaction

record metadata_ThanosDownsample =
  Resolution :: int

record metadata_Thanos =
  Labels :: "(string \<times> string) list"
  Downsample :: metadata_ThanosDownsample

record metadata_Meta =
  BlockMeta :: tsdb_BlockMeta
  Thanos :: metadata_Thanos

section \<open>Block filter\<close>

text \<open>
  \<open>labels.Selector\<close> belongs to the Prometheus library; it enters through its method
  \<open>Matches\<close>, a predicate on label sets.  \<open>labels.FromMap\<close> turns the map into a label
  set holding the same pairs.  The two allow-lists are Go maps used as sets.  The
  diagnostic log lines of \<open>Filter\<close> do not influence its result and are left out.
\<close>

record BlockFilter =
  labelSelector :: "(string \<times> string) list \<Rightarrow> bool"
  resolutionLevels :: "int set"
  compactionLevels :: "int set"

definition NewBlockFilter ::
  "((string \<times> string) list \<Rightarrow> bool) \<Rightarrow> int list \<Rightarrow> int list \<Rightarrow> BlockFilter" where
  "NewBlockFilter sel resolutions compactions =
     \<lparr> labelSelector = sel,
       resolutionLevels = set resolutions,
       compactionLevels = set compactions \<rparr>"

definition labels_FromMap :: "(string \<times> string) list \<Rightarrow> (string \<times> string) list" where
  "labels_FromMap m = m"

definition Filter :: "BlockFilter \<Rightarrow> metadata_Meta \<Rightarrow> bool" where
  "Filter bf b =
     (if length (Labels (Thanos b)) = 0 then False
      else
        let blockLabels = labels_FromMap (Labels (Thanos b));
            labelMatch = labelSelector bf blockLabels
        in
          if \<not> labelMatch then False
          else
            let gotResolution = Resolution (Downsample (Thanos b)) in
              if gotResolution \<notin> resolutionLevels bf then False
              else
                let gotCompactionLevel = Level (Compaction (BlockMeta b)) in
                  if gotCompactionLevel \<notin> compactionLevels bf then False
                  else True)"

section \<open>Errors\<close>

text \<open>
  Errors are values.  \<open>Wrap e msg\<close> is the result of \<open>errors.Wrap\<close> on a non-nil error,
  \<open>Cause\<close> walks back to the innermost error as \<open>errors.Cause\<close> does.  \<open>errors_Wrap\<close>
  is \<open>errors.Wrap\<close> on a possibly nil error: wrapping nil gives nil.
\<close>

datatype error =
    ErrorSyncMetaNotFound
  | ObjNotFound string
  | EOF
  | IOError string
  | Panic string
  | Wrap error string

fun Cause :: "error \<Rightarrow> error" where
  "Cause (Wrap e msg) = Cause e"
| "Cause e = e"

definition errors_Wrap :: "error option \<Rightarrow> string \<Rightarrow> error option" where
  "errors_Wrap err msg = (case err of None \<Rightarrow> None | Some e \<Rightarrow> Some (Wrap e msg))"

definition IsObjNotFoundErr :: "error option \<Rightarrow> bool" where
  "IsObjNotFoundErr err =
     (case err of
        None \<Rightarrow> False
      | Some e \<Rightarrow> (case Cause e of ObjNotFound p \<Rightarrow> True | _ \<Rightarrow> False))"

section \<open>Buckets, metrics and the state of a pass\<close>

text \<open>
  The bucket clients (\<open>objstore.Bucket\<close>), the metadata fetcher and
  \<open>thanosblock.IsBlockDir\<close> are collaborators outside this package.  They enter as
  follows.

  \<^item> The origin bucket is only read: \<open>objects\<close> is its content and \<open>entries dir\<close> the
    entries of directory \<open>dir\<close> in the order in which \<open>Iter\<close> visits them.  \<open>Iter\<close>
    hands its callback the full name of an entry, the directory included (\<open>listed\<close>).
  \<^item> The fetcher answers \<open>Fetch\<close> with a mapping and an error (nil or not); for a fixed
    origin its answer is fixed.
  \<^item> \<open>isBlockDir\<close> is \<open>thanosblock.IsBlockDir\<close>.
  \<^item> \<open>sortSlice\<close> is \<open>sort.Slice\<close> of the Go library, given the comparison and the
    slice.  It is not a stable sort, so the code does not fix the order of elements that
    compare equal; what it promises is stated apart, as \<open>sortSliceSorts\<close>.
  \<^item> The target bucket is the mutable part: \<open>toBkt\<close> maps object names to contents.
  \<^item> Every bucket call and every \<open>ioutil.ReadAll\<close> may fail: each takes the next entry
    of the schedule \<open>faults\<close> (no entry left: no failure) and fails with the error found
    there.  A failed call changes no bucket.  \<open>Iter\<close> fails before its first callback.
  \<^item> \<open>calls\<close> is the record of the bucket calls made so far, each with its outcome
    (for \<open>Iter\<close>, the outcome of the listing; for a \<open>Get\<close> of an absent object, the
    not-found error).
  \<^item> The Prometheus counters are natural numbers.
  Log output is not modelled.
\<close>

record replicationMetrics =
  originIterations :: nat
  originMetaLoads :: nat
  originPartialMeta :: nat
  blocksAlreadyReplicated :: nat
  blocksReplicated :: nat
  objectsReplicated :: nat

definition newReplicationMetrics :: replicationMetrics where
  "newReplicationMetrics =
     \<lparr> originIterations = 0, originMetaLoads = 0, originPartialMeta = 0,
       blocksAlreadyReplicated = 0, blocksReplicated = 0, objectsReplicated = 0 \<rparr>"

record originBucket =
  objects :: "string \<rightharpoonup> bytes"
  entries :: "string \<Rightarrow> string list"

record replicationScheme =
  fromBkt :: originBucket
  blockFilter :: "metadata_Meta \<Rightarrow> bool"
  fetcher :: "(ulid \<rightharpoonup> metadata_Meta) \<times> error option"
  isBlockDir :: "string \<Rightarrow> ulid option"
  sortSlice :: "(metadata_Meta \<Rightarrow> metadata_Meta \<Rightarrow> bool) \<Rightarrow> metadata_Meta list \<Rightarrow> metadata_Meta list"

datatype bucketCall = FromIter | FromGetExpectedErrs | FromGet | ToGet | ToExists | ToUpload

datatype call = Call (callOp: bucketCall) (callName: string) (callOutcome: "error option")

record state =
  toBkt :: "string \<rightharpoonup> bytes"
  metrics :: replicationMetrics
  faults :: "error option list"
  calls :: "call list"

datatype reader = Reader bytes

definition nextFault :: "state \<Rightarrow> error option \<times> state" where
  "nextFault s = (case faults s of [] \<Rightarrow> (None, s) | f # fs \<Rightarrow> (f, s\<lparr>faults := fs\<rparr>))"

definition recordCall :: "bucketCall \<Rightarrow> string \<Rightarrow> error option \<Rightarrow> state \<Rightarrow> state" where
  "recordCall c name outcome s = s\<lparr>calls := calls s @ [Call c name outcome]\<rparr>"

definition originGet ::
  "bucketCall \<Rightarrow> replicationScheme \<Rightarrow> string \<Rightarrow> state \<Rightarrow> (error + reader) \<times> state" where
  "originGet c rs name s =
     (case nextFault s of
        (Some e, s1) \<Rightarrow> (Inl e, recordCall c name (Some e) s1)
      | (None, s1) \<Rightarrow>
          (case objects (fromBkt rs) name of
             None \<Rightarrow> (Inl (ObjNotFound name), recordCall c name (Some (ObjNotFound name)) s1)
           | Some content \<Rightarrow> (Inr (Reader content), recordCall c name None s1)))"

definition fromBkt_Get :: "replicationScheme \<Rightarrow> string \<Rightarrow> state \<Rightarrow> (error + reader) \<times> state" where
  "fromBkt_Get = originGet FromGet"

definition fromBkt_GetExpectedErrs ::
  "replicationScheme \<Rightarrow> string \<Rightarrow> state \<Rightarrow> (error + reader) \<times> state" where
  "fromBkt_GetExpectedErrs = originGet FromGetExpectedErrs"

definition toBkt_Get :: "string \<Rightarrow> state \<Rightarrow> (reader option \<times> error option) \<times> state" where
  "toBkt_Get name s =
     (case nextFault s of
        (Some e, s1) \<Rightarrow> ((None, Some e), recordCall ToGet name (Some e) s1)
      | (None, s1) \<Rightarrow>
          (case toBkt s1 name of
             None \<Rightarrow> ((None, Some (ObjNotFound name)), recordCall ToGet name (Some (ObjNotFound name)) s1)
           | Some content \<Rightarrow> ((Some (Reader content), None), recordCall ToGet name None s1)))"

definition toBkt_Exists :: "string \<Rightarrow> state \<Rightarrow> (error + bool) \<times> state" where
  "toBkt_Exists name s =
     (case nextFault s of
        (Some e, s1) \<Rightarrow> (Inl e, recordCall ToExists name (Some e) s1)
      | (None, s1) \<Rightarrow> (Inr (toBkt s1 name \<noteq> None), recordCall ToExists name None s1))"

definition toBkt_Upload :: "string \<Rightarrow> reader \<Rightarrow> state \<Rightarrow> error option \<times> state" where
  "toBkt_Upload name r s =
     (case r of Reader content \<Rightarrow>
        (case nextFault s of
           (Some e, s1) \<Rightarrow> (Some e, recordCall ToUpload name (Some e) s1)
         | (None, s1) \<Rightarrow>
             (None, recordCall ToUpload name None (s1\<lparr>toBkt := (toBkt s1)(name \<mapsto> content)\<rparr>))))"

definition ioutil_ReadAll :: "reader \<Rightarrow> state \<Rightarrow> (error + bytes) \<times> state" where
  "ioutil_ReadAll r s =
     (case r of Reader content \<Rightarrow>
        (case nextFault s of
           (Some e, s1) \<Rightarrow> (Inl e, s1)
         | (None, s1) \<Rightarrow> (Inr content, s1)))"

text \<open>
  \<open>Iter\<close> calls its callback on the entries in turn and stops at the first error.  The
  variables its closure captures and updates travel in the first component.
\<close>

fun iterate ::
  "(string \<Rightarrow> 'c \<times> state \<Rightarrow> error option \<times> 'c \<times> state) \<Rightarrow> string list \<Rightarrow> 'c \<times> state
    \<Rightarrow> error option \<times> 'c \<times> state" where
  "iterate f [] cs = (None, cs)"
| "iterate f (name # names) cs =
     (case f name cs of
        (Some e, cs') \<Rightarrow> (Some e, cs')
      | (None, cs') \<Rightarrow> iterate f names cs')"

definition entryName :: "string \<Rightarrow> string \<Rightarrow> string" where
  "entryName dir entry = (if dir = '''' then entry else dir @ ''/'' @ entry)"

definition listed :: "replicationScheme \<Rightarrow> string \<Rightarrow> string list" where
  "listed rs dir = map (entryName dir) (entries (fromBkt rs) dir)"

definition fromBkt_Iter ::
  "replicationScheme \<Rightarrow> string \<Rightarrow> (string \<Rightarrow> 'c \<times> state \<Rightarrow> error option \<times> 'c \<times> state)
    \<Rightarrow> 'c \<times> state \<Rightarrow> error option \<times> 'c \<times> state" where
  "fromBkt_Iter rs dir f cs =
     (case cs of (c, s) \<Rightarrow>
        (case nextFault s of
           (Some e, s1) \<Rightarrow> (Some e, c, recordCall FromIter dir (Some e) s1)
         | (None, s1) \<Rightarrow> iterate f (listed rs dir) (c, recordCall FromIter dir None s1)))"

section \<open>Object transfer\<close>

definition incObjectsReplicated :: "state \<Rightarrow> state" where
  "incObjectsReplicated s =
     s\<lparr>metrics := (metrics s)\<lparr>objectsReplicated := objectsReplicated (metrics s) + 1\<rparr>\<rparr>"

definition ensureObjectReplicated ::
  "replicationScheme \<Rightarrow> string \<Rightarrow> state \<Rightarrow> error option \<times> state" where
  "ensureObjectReplicated rs objectName s =
     (case toBkt_Exists objectName s of
        (Inl err, s1) \<Rightarrow>
          (Some (Wrap err (''check if '' @ objectName @ '' exists in target bucket'')), s1)
      | (Inr exists, s1) \<Rightarrow>
          if exists then (None, s1)
          else
            (case fromBkt_Get rs objectName s1 of
               (Inl err, s2) \<Rightarrow>
                 (Some (Wrap err (''get '' @ objectName @ '' from origin bucket'')), s2)
             | (Inr r, s2) \<Rightarrow>
                 (case toBkt_Upload objectName r s2 of
                    (Some err, s3) \<Rightarrow>
                      (Some (Wrap err (''upload '' @ objectName @ '' to target bucket'')), s3)
                  | (None, s3) \<Rightarrow> (None, incObjectsReplicated s3))))"

section \<open>Block transfer\<close>

text \<open>
  \<open>path.Join\<close> on a block identifier's text and a plain file name: both are clean, so
  the result is the two joined by the separator.
\<close>

definition path_Join :: "string \<Rightarrow> string \<Rightarrow> string" where
  "path_Join dir name = dir @ ''/'' @ name"

definition ChunksDirname :: string where "ChunksDirname = ''chunks''"
definition IndexFilename :: string where "IndexFilename = ''index''"
definition MetaFilename :: string where "MetaFilename = ''meta.json''"

definition incBlocksAlreadyReplicated :: "state \<Rightarrow> state" where
  "incBlocksAlreadyReplicated s =
     s\<lparr>metrics := (metrics s)\<lparr>blocksAlreadyReplicated := blocksAlreadyReplicated (metrics s) + 1\<rparr>\<rparr>"

definition incBlocksReplicated :: "state \<Rightarrow> state" where
  "incBlocksReplicated s =
     s\<lparr>metrics := (metrics s)\<lparr>blocksReplicated := blocksReplicated (metrics s) + 1\<rparr>\<rparr>"

text \<open>The callback given to \<open>Iter\<close> over the chunks directory.\<close>

definition replicateChunk ::
  "replicationScheme \<Rightarrow> string \<Rightarrow> unit \<times> state \<Rightarrow> error option \<times> unit \<times> state" where
  "replicateChunk rs objectName cs =
     (case ensureObjectReplicated rs objectName (snd cs) of
        (Some err, s1) \<Rightarrow> (Some (Wrap err (''replicate object '' @ objectName)), (), s1)
      | (None, s1) \<Rightarrow> (None, (), s1))"

text \<open>
  The second half of \<open>ensureBlockIsReplicated\<close>, reached when the target holds no equal
  \<open>meta.json\<close>: the chunk objects, the index, and the meta file last.
\<close>

definition transferBlock ::
  "replicationScheme \<Rightarrow> string \<Rightarrow> string \<Rightarrow> string \<Rightarrow> bytes \<Rightarrow> state \<Rightarrow> error option \<times> state" where
  "transferBlock rs chunksDir indexFile metaFile originMetaFileContent s =
     (case fromBkt_Iter rs chunksDir (replicateChunk rs) ((), s) of
        (Some err, u, s1) \<Rightarrow> (Some err, s1)
      | (None, u, s1) \<Rightarrow>
          (case ensureObjectReplicated rs indexFile s1 of
             (Some err, s2) \<Rightarrow> (Some (Wrap err ''replicate index file''), s2)
           | (None, s2) \<Rightarrow>
               (case toBkt_Upload metaFile (Reader originMetaFileContent) s2 of
                  (Some err, s3) \<Rightarrow> (Some (Wrap err ''upload meta file''), s3)
                | (None, s3) \<Rightarrow> (None, incBlocksReplicated s3))))"

definition ensureBlockIsReplicated ::
  "replicationScheme \<Rightarrow> ulid \<Rightarrow> state \<Rightarrow> error option \<times> state" where
  "ensureBlockIsReplicated rs uid s =
     (let blockID = ulidString uid;
          chunksDir = path_Join blockID ChunksDirname;
          indexFile = path_Join blockID IndexFilename;
          metaFile = path_Join blockID MetaFilename
      in
        case fromBkt_GetExpectedErrs rs metaFile s of
          (Inl err, s1) \<Rightarrow> (Some (Wrap err ''get meta file from origin bucket''), s1)
        | (Inr originMetaFile, s1) \<Rightarrow>
            (case toBkt_Get metaFile s1 of
               ((targetMetaFile, err), s2) \<Rightarrow>
                 if err \<noteq> None \<and> \<not> IsObjNotFoundErr err \<and> err \<noteq> Some EOF
                 then (errors_Wrap err ''get meta file from target bucket'', s2)
                 else
                   (case ioutil_ReadAll originMetaFile s2 of
                      (Inl err, s3) \<Rightarrow> (Some (Wrap err ''read origin meta file''), s3)
                    | (Inr originMetaFileContent, s3) \<Rightarrow>
                        (case (targetMetaFile, IsObjNotFoundErr None) of
                           (Some target, False) \<Rightarrow>
                             (case ioutil_ReadAll target s3 of
                                (Inl err, s4) \<Rightarrow> (Some (Wrap err ''read target meta file''), s4)
                              | (Inr targetMetaFileContent, s4) \<Rightarrow>
                                  if originMetaFileContent = targetMetaFileContent
                                  then (None, incBlocksAlreadyReplicated s4)
                                  else transferBlock rs chunksDir indexFile metaFile
                                         originMetaFileContent s4)
                         | _ \<Rightarrow>
                             transferBlock rs chunksDir indexFile metaFile
                               originMetaFileContent s3))))"

section \<open>Replication pass\<close>

definition loadMeta ::
  "replicationScheme \<Rightarrow> ulid \<Rightarrow> metadata_Meta option \<times> bool \<times> error option" where
  "loadMeta rs uid =
     (case fetcher rs of
        (metas, Some err) \<Rightarrow>
          (if Cause err = ErrorSyncMetaNotFound
           then (None, True, errors_Wrap (Some err) ''fetch meta'')
           else (None, False, errors_Wrap (Some err) ''fetch meta''))
      | (metas, None) \<Rightarrow>
          (case metas uid of
             None \<Rightarrow> (None, True, errors_Wrap None ''fetch meta'')
           | Some m \<Rightarrow> (Some m, False, None)))"

definition incOriginIterations :: "state \<Rightarrow> state" where
  "incOriginIterations s =
     s\<lparr>metrics := (metrics s)\<lparr>originIterations := originIterations (metrics s) + 1\<rparr>\<rparr>"

definition incOriginMetaLoads :: "state \<Rightarrow> state" where
  "incOriginMetaLoads s =
     s\<lparr>metrics := (metrics s)\<lparr>originMetaLoads := originMetaLoads (metrics s) + 1\<rparr>\<rparr>"

definition incOriginPartialMeta :: "state \<Rightarrow> state" where
  "incOriginPartialMeta s =
     s\<lparr>metrics := (metrics s)\<lparr>originPartialMeta := originPartialMeta (metrics s) + 1\<rparr>\<rparr>"

text \<open>
  The callback given to \<open>Iter\<close> over the top level of the origin bucket.  It appends to
  \<open>availableBlocks\<close>, the variable it captures.  Reading the labels of a nil descriptor
  would panic; \<open>loadMeta\<close> never returns one together with \<open>false\<close> and a nil error.
\<close>

definition discoverBlock ::
  "replicationScheme \<Rightarrow> string \<Rightarrow> metadata_Meta list \<times> state
    \<Rightarrow> error option \<times> metadata_Meta list \<times> state" where
  "discoverBlock rs name cs =
     (case cs of (availableBlocks, s) \<Rightarrow>
        let s1 = incOriginIterations s in
          (case isBlockDir rs name of
             None \<Rightarrow> (None, availableBlocks, s1)
           | Some uid \<Rightarrow>
               let s2 = incOriginMetaLoads s1 in
                 (case loadMeta rs uid of
                    (meta, metaNonExistentOrPartial, err) \<Rightarrow>
                      if metaNonExistentOrPartial
                      then (None, availableBlocks, incOriginPartialMeta s2)
                      else if err \<noteq> None
                      then (errors_Wrap err
                              (''load meta for block '' @ ulidString uid @ '' from origin bucket''),
                            availableBlocks, s2)
                      else
                        (case meta of
                           None \<Rightarrow> (Some (Panic ''nil pointer dereference''), availableBlocks, s2)
                         | Some m \<Rightarrow>
                             if length (Labels (Thanos m)) = 0
                             then (None, availableBlocks, s2)
                             else (None, availableBlocks @ [m], s2)))))"

text \<open>The loop over the sorted candidates: it stops at the first failed block transfer.\<close>

fun replicateCandidates ::
  "replicationScheme \<Rightarrow> metadata_Meta list \<Rightarrow> state \<Rightarrow> error option \<times> state" where
  "replicateCandidates rs [] s = (None, s)"
| "replicateCandidates rs (b # bs) s =
     (case ensureBlockIsReplicated rs (ULID (BlockMeta b)) s of
        (Some err, s1) \<Rightarrow>
          (Some (Wrap err (''ensure block '' @ ulidString (ULID (BlockMeta b)) @ '' is replicated'')),
           s1)
      | (None, s1) \<Rightarrow> replicateCandidates rs bs s1)"

text \<open>
  The call of \<open>sort.Slice\<close> on the candidates, with the comparison on \<open>MinTime\<close> that
  \<open>execute\<close> passes.
\<close>

definition sortByMinTime :: "replicationScheme \<Rightarrow> metadata_Meta list \<Rightarrow> metadata_Meta list" where
  "sortByMinTime rs bs =
     sortSlice rs (\<lambda>a b. MinTime (BlockMeta a) < MinTime (BlockMeta b)) bs"

definition execute :: "replicationScheme \<Rightarrow> state \<Rightarrow> error option \<times> state" where
  "execute rs s =
     (case fromBkt_Iter rs '''' (discoverBlock rs) ([], s) of
        (Some err, availableBlocks, s1) \<Rightarrow> (Some (Wrap err ''iterate over origin bucket''), s1)
      | (None, availableBlocks, s1) \<Rightarrow>
          let candidateBlocks = filter (blockFilter rs) availableBlocks
          in replicateCandidates rs (sortByMinTime rs candidateBlocks) s1)"

section \<open>Observations on a run\<close>

text \<open>
  What the statements below read off a run.  \<open>newCalls s s'\<close> are the bucket calls made
  between two states.  \<open>quiet k\<close> says that none of the next \<open>k\<close> fallible operations
  is made to fail.  The three paths of a block are those \<open>ensureBlockIsReplicated\<close>
  computes.  A block transfer starts with its read of the origin's \<open>meta.json\<close>, the
  only call of that kind, so \<open>transfersStarted\<close> lists the block transfers of a run in
  order.  A commit is a successful upload of the \<open>meta.json\<close> of the block whose
  transfer is under way; \<open>blockCommits\<close> lists the commits of a run in order.  \<open>freshUploads s M cs\<close>
  says that every upload call in \<open>cs\<close> names an object that the target did not hold in
  state \<open>s\<close>, or a name in \<open>M\<close>.  An object call is one of the three bucket calls \<open>ensureObjectReplicated\<close>
  makes; \<open>objectTransferFailed\<close> singles out a failed one, the upload of the block's own
  \<open>meta.json\<close> apart.  A block is committed when the target holds the origin's
  \<open>meta.json\<close> for it.  \<open>candidateBlocks\<close> is the list \<open>execute\<close> builds before it
  sorts.  \<open>sortSliceSorts\<close> is what \<open>sort.Slice\<close> promises for the comparison on
  \<open>MinTime\<close>: the result is the argument rearranged, in ascending order of \<open>MinTime\<close>.
  It says nothing on the order of blocks of equal \<open>MinTime\<close>.
\<close>

definition newCalls :: "state \<Rightarrow> state \<Rightarrow> call list" where
  "newCalls s s' = drop (length (calls s)) (calls s')"

definition quiet :: "nat \<Rightarrow> state \<Rightarrow> bool" where
  "quiet k s = list_all (\<lambda>f. f = None) (take k (faults s))"

definition metaFileOf :: "ulid \<Rightarrow> string" where
  "metaFileOf uid = path_Join (ulidString uid) MetaFilename"

definition chunksDirOf :: "ulid \<Rightarrow> string" where
  "chunksDirOf uid = path_Join (ulidString uid) ChunksDirname"

definition indexFileOf :: "ulid \<Rightarrow> string" where
  "indexFileOf uid = path_Join (ulidString uid) IndexFilename"

abbreviation blockMetaFile :: "metadata_Meta \<Rightarrow> string" where
  "blockMetaFile b \<equiv> metaFileOf (ULID (BlockMeta b))"

definition transfersStarted :: "call list \<Rightarrow> string list" where
  "transfersStarted cs = map callName (filter (\<lambda>c. callOp c = FromGetExpectedErrs) cs)"

definition uploads :: "call list \<Rightarrow> string list" where
  "uploads cs = map callName (filter (\<lambda>c. callOp c = ToUpload) cs)"

fun commitsFrom :: "string option \<Rightarrow> call list \<Rightarrow> string list" where
  "commitsFrom cur [] = []"
| "commitsFrom cur (c # cs) =
     (if callOp c = FromGetExpectedErrs then commitsFrom (Some (callName c)) cs
      else if callOp c = ToUpload \<and> callOutcome c = None \<and> cur = Some (callName c)
      then callName c # commitsFrom cur cs
      else commitsFrom cur cs)"


definition freshUploads :: "state \<Rightarrow> string set \<Rightarrow> call list \<Rightarrow> bool" where
  "freshUploads s metaFiles cs =
     (\<forall>c\<in>set cs. callOp c = ToUpload \<longrightarrow>
        toBkt s (callName c) = None \<or> callName c \<in> metaFiles)"

definition objectCall :: "call \<Rightarrow> bool" where
  "objectCall c = (callOp c = ToExists \<or> callOp c = FromGet \<or> callOp c = ToUpload)"

definition blockCounters :: "state \<Rightarrow> nat \<times> nat" where
  "blockCounters s = (blocksAlreadyReplicated (metrics s), blocksReplicated (metrics s))"

definition objectTransferFailed :: "string \<Rightarrow> call \<Rightarrow> bool" where
  "objectTransferFailed metaFile c =
     (objectCall c \<and> callOutcome c \<noteq> None \<and> \<not> (callOp c = ToUpload \<and> callName c = metaFile))"

definition committed :: "replicationScheme \<Rightarrow> state \<Rightarrow> ulid \<Rightarrow> bool" where
  "committed rs s uid =
     (case toBkt s (metaFileOf uid) of
        None \<Rightarrow> False
      | Some content \<Rightarrow> objects (fromBkt rs) (metaFileOf uid) = Some content)"

definition candidateBlocks :: "replicationScheme \<Rightarrow> state \<Rightarrow> metadata_Meta list" where
  "candidateBlocks rs s =
     (case fromBkt_Iter rs '''' (discoverBlock rs) ([], s) of
        (r, availableBlocks, s1) \<Rightarrow> filter (blockFilter rs) availableBlocks)"

definition sortSliceSorts :: "replicationScheme \<Rightarrow> bool" where
  "sortSliceSorts rs =
     (\<forall>bs. mset (sortByMinTime rs bs) = mset bs
          \<and> sorted (map (\<lambda>b. MinTime (BlockMeta b)) (sortByMinTime rs bs)))"

section \<open>Two example blocks\<close>

text \<open>
  An origin bucket with two complete blocks: \<open>ulidD\<close> from time 50 with one chunk file,
  \<open>ulidE\<close> from time 10 with none.  The filter accepts both.  The states differ in what
  the target bucket holds and in the failures scheduled.  The sort of the example is an
  insertion sort that puts an element behind those it does not precede, so it reverses the
  order of equal elements; \<open>exTied\<close> gives both blocks the same \<open>MinTime\<close>, and
  \<open>exTiedStable\<close> sorts them with a stable sort instead.
\<close>

definition ulidD :: ulid where "ulidD = Ulid ''01ARZ3NDEKTSV4RRFFQ69G5FAV''"

definition ulidE :: ulid where "ulidE = Ulid ''01BX5ZZKBKACTAV9WEVGEMMVRZ''"

definition exMeta :: "ulid \<Rightarrow> int \<Rightarrow> metadata_Meta" where
  "exMeta uid t =
     \<lparr> BlockMeta = \<lparr> ULID = uid, MinTime = t, MaxTime = t + 10, Compaction = \<lparr> Level = 1 \<rparr> \<rparr>,
       Thanos = \<lparr> Labels = [(''cluster'', ''x'')], Downsample = \<lparr> Resolution = 0 \<rparr> \<rparr> \<rparr>"

definition exOrigin :: originBucket where
  "exOrigin =
     \<lparr> objects = [''01ARZ3NDEKTSV4RRFFQ69G5FAV/meta.json'' \<mapsto> [1],
                  ''01ARZ3NDEKTSV4RRFFQ69G5FAV/index'' \<mapsto> [2],
                  ''01ARZ3NDEKTSV4RRFFQ69G5FAV/chunks/000001'' \<mapsto> [3],
                  ''01BX5ZZKBKACTAV9WEVGEMMVRZ/meta.json'' \<mapsto> [4],
                  ''01BX5ZZKBKACTAV9WEVGEMMVRZ/index'' \<mapsto> [5]],
       entries = (\<lambda>dir. if dir = '''' then [''01ARZ3NDEKTSV4RRFFQ69G5FAV/'', ''01BX5ZZKBKACTAV9WEVGEMMVRZ/'']
                       else if dir = ''01ARZ3NDEKTSV4RRFFQ69G5FAV/chunks''
                       then [''000001'']
                       else []) \<rparr>"

definition exIsBlockDir :: "string \<Rightarrow> ulid option" where
  "exIsBlockDir name =
     (if name = ''01ARZ3NDEKTSV4RRFFQ69G5FAV/'' then Some ulidD
      else if name = ''01BX5ZZKBKACTAV9WEVGEMMVRZ/'' then Some ulidE
      else None)"

fun exInsert :: "('a \<Rightarrow> 'a \<Rightarrow> bool) \<Rightarrow> 'a \<Rightarrow> 'a list \<Rightarrow> 'a list" where
  "exInsert lt x [] = [x]"
| "exInsert lt x (y # ys) = (if lt x y then x # y # ys else y # exInsert lt x ys)"

definition exSort :: "('a \<Rightarrow> 'a \<Rightarrow> bool) \<Rightarrow> 'a list \<Rightarrow> 'a list" where
  "exSort lt xs = foldr (exInsert lt) xs []"

definition exFetched :: "replicationScheme" where
  "exFetched =
     \<lparr> fromBkt = exOrigin,
       blockFilter = Filter (NewBlockFilter (\<lambda>ls. (''cluster'', ''x'') \<in> set ls) [0] [1]),
       fetcher = ([ulidD \<mapsto> exMeta ulidD 50, ulidE \<mapsto> exMeta ulidE 10], None),
       isBlockDir = exIsBlockDir,
       sortSlice = exSort \<rparr>"

definition exScheme :: "(ulid \<rightharpoonup> metadata_Meta) \<times> error option \<Rightarrow> replicationScheme" where
  "exScheme answer = exFetched\<lparr>fetcher := answer\<rparr>"

definition exState :: "(string \<rightharpoonup> bytes) \<Rightarrow> error option list \<Rightarrow> state" where
  "exState target schedule =
     \<lparr> toBkt = target, metrics = newReplicationMetrics, faults = schedule, calls = [] \<rparr>"

definition exEmpty :: state where
  "exEmpty = exState Map.empty []"

definition exAfterPass :: state where
  "exAfterPass = snd (execute exFetched exEmpty)"

definition exIndexFails :: state where
  "exIndexFails =
     exState Map.empty [None, None, None, None, None, None, None, Some (IOError ''injected'')]"

definition exFirstFails :: state where
  "exFirstFails = exState Map.empty [None, Some (IOError ''injected'')]"

definition exCommitted :: state where
  "exCommitted = exState [''01ARZ3NDEKTSV4RRFFQ69G5FAV/meta.json'' \<mapsto> [1]] []"

definition exHasIndex :: state where
  "exHasIndex = exState [''01ARZ3NDEKTSV4RRFFQ69G5FAV/index'' \<mapsto> [7]] []"

definition exStale :: state where
  "exStale = exState [''01BX5ZZKBKACTAV9WEVGEMMVRZ/meta.json'' \<mapsto> [9]] []"

definition exTied :: replicationScheme where
  "exTied = exScheme ([ulidD \<mapsto> exMeta ulidD 10, ulidE \<mapsto> exMeta ulidE 10], None)"

definition exTiedStable :: replicationScheme where
  "exTiedStable = exTied\<lparr>sortSlice := (\<lambda>lt. sort_key (\<lambda>b. MinTime (BlockMeta b)))\<rparr>"

definition exPartial :: replicationScheme where
  "exPartial = exScheme (Map.empty, Some (Wrap ErrorSyncMetaNotFound ''sync''))"

definition exHard :: replicationScheme where
  "exHard = exScheme (Map.empty, Some (IOError ''fetch failed''))"

section \<open>Frame and shape lemmas\<close>

lemmas prim_defs = toBkt_Exists_def fromBkt_Get_def fromBkt_GetExpectedErrs_def originGet_def
  toBkt_Get_def toBkt_Upload_def ioutil_ReadAll_def nextFault_def recordCall_def

lemma newCalls_append: "calls s' = calls s @ cs \<Longrightarrow> newCalls s s' = cs"
  by (simp add: newCalls_def)

lemma eo_shape:
  assumes "ensureObjectReplicated rs n s = (r, s')"
  shows "\<exists>cs. calls s' = calls s @ cs
           \<and> (\<forall>c\<in>set cs. objectCall c \<and> callName c = n)
           \<and> (r = None \<longrightarrow> (\<forall>c\<in>set cs. callOutcome c = None))
           \<and> (uploads cs \<noteq> [] \<longrightarrow> toBkt s n = None)"
  using assms
  by (auto simp: ensureObjectReplicated_def prim_defs incObjectsReplicated_def objectCall_def
      uploads_def
      split: list.splits option.splits prod.splits sum.splits if_splits)

lemma eo_toBkt:
  assumes "ensureObjectReplicated rs n s = (r, s')"
  shows "toBkt s' = toBkt s
       \<or> (toBkt s n = None \<and> (\<exists>content. objects (fromBkt rs) n = Some content
              \<and> toBkt s' = (toBkt s)(n \<mapsto> content)))"
  using assms
  by (auto simp: ensureObjectReplicated_def prim_defs incObjectsReplicated_def
      split: list.splits option.splits prod.splits sum.splits if_splits)

lemma eo_keeps:
  assumes "ensureObjectReplicated rs n s = (r, s')" and "toBkt s p = Some v"
  shows "toBkt s' p = Some v"
  using eo_toBkt [OF assms(1)] assms(2) by auto

lemma eo_other:
  assumes "ensureObjectReplicated rs n s = (r, s')" and "p \<noteq> n"
  shows "toBkt s' p = toBkt s p"
  using eo_toBkt [OF assms(1)] assms(2) by auto

lemma eo_ensures:
  assumes "ensureObjectReplicated rs n s = (None, s')"
  shows "toBkt s' n \<noteq> None"
  using assms
  by (auto simp: ensureObjectReplicated_def prim_defs incObjectsReplicated_def
      split: list.splits option.splits prod.splits sum.splits if_splits)

lemma eo_blockCounters:
  "ensureObjectReplicated rs n s = (r, s') \<Longrightarrow> blockCounters s' = blockCounters s"
  by (auto simp: ensureObjectReplicated_def prim_defs blockCounters_def incObjectsReplicated_def
      split: list.splits option.splits prod.splits sum.splits if_splits)

lemma eo_faults:
  "ensureObjectReplicated rs n s = (r, s') \<Longrightarrow> faults s = [] \<Longrightarrow> faults s' = []"
  by (auto simp: ensureObjectReplicated_def prim_defs incObjectsReplicated_def
      split: list.splits option.splits prod.splits sum.splits if_splits)

lemma replicateChunk_apply:
  "replicateChunk rs n (u, s) =
     (case ensureObjectReplicated rs n s of
        (Some err, s1) \<Rightarrow> (Some (Wrap err (''replicate object '' @ n)), (), s1)
      | (None, s1) \<Rightarrow> (None, (), s1))"
  by (simp add: replicateChunk_def)

lemma chunks_shape:
  "iterate (replicateChunk rs) names (u, s) = (r, u', s') \<Longrightarrow>
     \<exists>cs. calls s' = calls s @ cs
        \<and> (\<forall>c\<in>set cs. objectCall c \<and> callName c \<in> set names)
        \<and> (r = None \<longrightarrow> (\<forall>c\<in>set cs. callOutcome c = None))"
proof (induction names arbitrary: u s)
  case Nil
  then show ?case by simp
next
  case (Cons n names)
  show ?case
  proof (cases "ensureObjectReplicated rs n s")
    case (Pair r1 s1)
    from eo_shape [OF Pair] obtain cs1 where
      cs1: "calls s1 = calls s @ cs1" "\<forall>c\<in>set cs1. objectCall c \<and> callName c = n"
        "r1 = None \<longrightarrow> (\<forall>c\<in>set cs1. callOutcome c = None)"
      by blast
    show ?thesis
    proof (cases r1)
      case None
      with Cons.prems Pair have "iterate (replicateChunk rs) names ((), s1) = (r, u', s')"
        by (simp add: replicateChunk_apply)
      from Cons.IH [OF this] obtain cs2 where
        cs2: "calls s' = calls s1 @ cs2" "\<forall>c\<in>set cs2. objectCall c \<and> callName c \<in> set names"
          "r = None \<longrightarrow> (\<forall>c\<in>set cs2. callOutcome c = None)"
        by blast
      have "calls s' = calls s @ (cs1 @ cs2)" using cs1(1) cs2(1) by simp
      moreover have "\<forall>c\<in>set (cs1 @ cs2). objectCall c \<and> callName c \<in> set (n # names)"
        using cs1(2) cs2(2) by auto
      moreover have "r = None \<longrightarrow> (\<forall>c\<in>set (cs1 @ cs2). callOutcome c = None)"
        using cs1(3) cs2(3) None by auto
      ultimately show ?thesis by blast
    next
      case (Some e)
      with Cons.prems Pair have "s' = s1" "r \<noteq> None"
        by (auto simp: replicateChunk_apply)
      then show ?thesis using cs1 by auto
    qed
  qed
qed

lemma chunks_toBkt:
  "iterate (replicateChunk rs) names (u, s) = (r, u', s') \<Longrightarrow>
     (\<forall>p v. toBkt s p = Some v \<longrightarrow> toBkt s' p = Some v)
   \<and> (\<forall>p. p \<notin> set names \<longrightarrow> toBkt s' p = toBkt s p)
   \<and> (r = None \<longrightarrow> (\<forall>n\<in>set names. toBkt s' n \<noteq> None))
   \<and> blockCounters s' = blockCounters s
   \<and> (faults s = [] \<longrightarrow> faults s' = [])"
proof (induction names arbitrary: u s)
  case Nil
  then show ?case by simp
next
  case (Cons n names)
  show ?case
  proof (cases "ensureObjectReplicated rs n s")
    case (Pair r1 s1)
    note k = eo_keeps [OF Pair] and o = eo_other [OF Pair] and b = eo_blockCounters [OF Pair]
      and f = eo_faults [OF Pair]
    show ?thesis
    proof (cases r1)
      case None
      with Cons.prems Pair have it: "iterate (replicateChunk rs) names ((), s1) = (r, u', s')"
        by (simp add: replicateChunk_apply)
      note ih = Cons.IH [OF it]
      have e: "toBkt s1 n \<noteq> None" using eo_ensures Pair None by blast
      show ?thesis using ih k o b f e by (auto simp del: not_None_eq) 
    next
      case (Some e)
      with Cons.prems Pair have "s' = s1" "r \<noteq> None"
        by (auto simp: replicateChunk_apply)
      then show ?thesis using k o b f by auto
    qed
  qed
qed

lemma Iter_chunks_shape:
  assumes "fromBkt_Iter rs dir (replicateChunk rs) (u, s) = (r, u', s')"
  shows "\<exists>out cs. calls s' = calls s @ Call FromIter dir out # cs
           \<and> (\<forall>c\<in>set cs. objectCall c \<and> callName c \<in> set (listed rs dir))
           \<and> (r = None \<longrightarrow> (\<forall>c\<in>set cs. callOutcome c = None))"
proof (cases "faults s")
  case Nil
  with assms have "iterate (replicateChunk rs) (listed rs dir)
      (u, recordCall FromIter dir None s) = (r, u', s')"
    by (simp add: fromBkt_Iter_def nextFault_def)
  from chunks_shape [OF this] show ?thesis by (auto simp: recordCall_def)
next
  case (Cons f fs)
  show ?thesis
  proof (cases f)
    case None
    with Cons assms have "iterate (replicateChunk rs) (listed rs dir)
        (u, recordCall FromIter dir None (s\<lparr>faults := fs\<rparr>)) = (r, u', s')"
      by (simp add: fromBkt_Iter_def nextFault_def)
    from chunks_shape [OF this] show ?thesis by (auto simp: recordCall_def)
  next
    case (Some e)
    with Cons assms show ?thesis
      by (auto simp: fromBkt_Iter_def nextFault_def recordCall_def)
  qed
qed

lemma Iter_chunks_toBkt:
  assumes "fromBkt_Iter rs dir (replicateChunk rs) (u, s) = (r, u', s')"
  shows "(\<forall>p v. toBkt s p = Some v \<longrightarrow> toBkt s' p = Some v)
       \<and> (\<forall>p. p \<notin> set (listed rs dir) \<longrightarrow> toBkt s' p = toBkt s p)
       \<and> (r = None \<longrightarrow> (\<forall>n\<in>set (listed rs dir). toBkt s' n \<noteq> None))
       \<and> blockCounters s' = blockCounters s
       \<and> (faults s = [] \<longrightarrow> faults s' = [])"
proof (cases "faults s")
  case Nil
  with assms have "iterate (replicateChunk rs) (listed rs dir)
      (u, recordCall FromIter dir None s) = (r, u', s')"
    by (simp add: fromBkt_Iter_def nextFault_def)
  from chunks_toBkt [OF this] Nil show ?thesis by (simp add: recordCall_def blockCounters_def)
next
  case (Cons f fs)
  show ?thesis
  proof (cases f)
    case None
    with Cons assms have "iterate (replicateChunk rs) (listed rs dir)
        (u, recordCall FromIter dir None (s\<lparr>faults := fs\<rparr>)) = (r, u', s')"
      by (simp add: fromBkt_Iter_def nextFault_def)
    from chunks_toBkt [OF this] Cons show ?thesis by (simp add: recordCall_def blockCounters_def)
  next
    case (Some e)
    with Cons assms show ?thesis
      by (auto simp: fromBkt_Iter_def nextFault_def recordCall_def blockCounters_def)
  qed
qed

lemma Upload_shape:
  assumes "toBkt_Upload n (Reader content) s = (r, s')"
  shows "calls s' = calls s @ [Call ToUpload n r]"
    and "metrics s' = metrics s"
    and "faults s = [] \<Longrightarrow> faults s' = []"
    and "toBkt s' = (if r = None then (toBkt s)(n \<mapsto> content) else toBkt s)"
  using assms by (auto simp: prim_defs split: list.splits option.splits)

lemma commitsFrom_skip:
  "\<forall>c\<in>set cs. callOp c \<noteq> FromGetExpectedErrs \<and> (callOp c = ToUpload \<longrightarrow> callName c \<noteq> mf)
     \<Longrightarrow> commitsFrom (Some mf) (cs @ rest) = commitsFrom (Some mf) rest"
  by (induction cs) auto

lemma transferBlock_parts:
  assumes "transferBlock rs cd ix mf content s = (r, s')"
  obtains (chunks) u1 where "fromBkt_Iter rs cd (replicateChunk rs) ((), s) = (r, u1, s')" "r \<noteq> None"
  | (index) u1 s1 e where "fromBkt_Iter rs cd (replicateChunk rs) ((), s) = (None, u1, s1)"
      "ensureObjectReplicated rs ix s1 = (Some e, s')" "r = Some (Wrap e ''replicate index file'')"
  | (meta) u1 s1 s2 s3 r3 where "fromBkt_Iter rs cd (replicateChunk rs) ((), s) = (None, u1, s1)"
      "ensureObjectReplicated rs ix s1 = (None, s2)"
      "toBkt_Upload mf (Reader content) s2 = (r3, s3)"
      "r3 \<noteq> None \<longrightarrow> s' = s3 \<and> r \<noteq> None"
      "r3 = None \<longrightarrow> s' = incBlocksReplicated s3 \<and> r = None"
  using assms
  by (auto simp: transferBlock_def split: prod.splits option.splits)

lemma transferBlock_calls:
  assumes "transferBlock rs cd ix mf content s = (r, s')"
  shows "\<exists>cs. calls s' = calls s @ cs \<and> transfersStarted cs = []
           \<and> ((\<exists>c\<in>set cs. objectTransferFailed mf c) \<longrightarrow> r \<noteq> None)
           \<and> (mf \<notin> set (listed rs cd) \<and> mf \<noteq> ix
                \<and> (\<exists>c\<in>set cs. objectTransferFailed mf c) \<longrightarrow> toBkt s' mf = toBkt s mf)
           \<and> (mf \<notin> set (listed rs cd) \<and> mf \<noteq> ix \<longrightarrow>
                (\<forall>rest. commitsFrom (Some mf) (cs @ rest) = commitsFrom (Some mf) rest
                   \<or> commitsFrom (Some mf) (cs @ rest) = mf # commitsFrom (Some mf) rest))"
  using assms
proof (cases rule: transferBlock_parts)
  case (chunks u1)
  from Iter_chunks_shape [OF chunks(1)] obtain out cs where
    "calls s' = calls s @ Call FromIter cd out # cs"
    "\<forall>c\<in>set cs. objectCall c \<and> callName c \<in> set (listed rs cd)"
    by blast
  moreover from this have "transfersStarted (Call FromIter cd out # cs) = []"
    by (auto simp: transfersStarted_def objectCall_def filter_empty_conv)
  moreover from calculation(2) have "mf \<notin> set (listed rs cd) \<longrightarrow>
      (\<forall>rest. commitsFrom (Some mf) ((Call FromIter cd out # cs) @ rest)
                = commitsFrom (Some mf) rest)"
    by (auto simp: objectCall_def intro!: commitsFrom_skip)
  ultimately show ?thesis using chunks(2) Iter_chunks_toBkt [OF chunks(1)] by auto
next
  case (index u1 s1 e)
  from Iter_chunks_shape [OF index(1)] obtain out cs where
    a: "calls s1 = calls s @ Call FromIter cd out # cs"
    "\<forall>c\<in>set cs. objectCall c \<and> callName c \<in> set (listed rs cd)"
    by blast
  from eo_shape [OF index(2)] obtain cs2 where
    b: "calls s' = calls s1 @ cs2" "\<forall>c\<in>set cs2. objectCall c \<and> callName c = ix"
    by blast
  have "calls s' = calls s @ (Call FromIter cd out # cs @ cs2)" using a b by simp
  moreover have "transfersStarted (Call FromIter cd out # cs @ cs2) = []"
    using a(2) b(2) by (auto simp: transfersStarted_def objectCall_def filter_empty_conv)
  moreover have "mf \<notin> set (listed rs cd) \<and> mf \<noteq> ix \<longrightarrow> toBkt s' mf = toBkt s mf"
    using Iter_chunks_toBkt [OF index(1)] eo_other [OF index(2)] by auto
  moreover have "mf \<notin> set (listed rs cd) \<and> mf \<noteq> ix \<longrightarrow>
      (\<forall>rest. commitsFrom (Some mf) ((Call FromIter cd out # cs @ cs2) @ rest)
                = commitsFrom (Some mf) rest)"
  proof (intro impI allI)
    fix rest
    assume h: "mf \<notin> set (listed rs cd) \<and> mf \<noteq> ix"
    have "\<forall>c\<in>set (Call FromIter cd out # cs @ cs2).
            callOp c \<noteq> FromGetExpectedErrs \<and> (callOp c = ToUpload \<longrightarrow> callName c \<noteq> mf)"
      using a(2) b(2) h by (auto simp: objectCall_def)
    from commitsFrom_skip [OF this]
    show "commitsFrom (Some mf) ((Call FromIter cd out # cs @ cs2) @ rest)
            = commitsFrom (Some mf) rest" .
  qed
  ultimately show ?thesis using index(3) by blast
next
  case (meta u1 s1 s2 s3 r3)
  from Iter_chunks_shape [OF meta(1)] obtain out cs where
    a: "calls s1 = calls s @ Call FromIter cd out # cs"
    "\<forall>c\<in>set cs. objectCall c \<and> callName c \<in> set (listed rs cd)"
    "\<forall>c\<in>set cs. callOutcome c = None"
    by blast
  from eo_shape [OF meta(2)] obtain cs2 where
    b: "calls s2 = calls s1 @ cs2" "\<forall>c\<in>set cs2. objectCall c \<and> callName c = ix"
    "\<forall>c\<in>set cs2. callOutcome c = None"
    by blast
  have c: "calls s' = calls s2 @ [Call ToUpload mf r3]"
    using Upload_shape(1) [OF meta(3)] meta(4,5) by (cases r3) (auto simp: incBlocksReplicated_def)
  let ?cs = "Call FromIter cd out # cs @ cs2 @ [Call ToUpload mf r3]"
  have "calls s' = calls s @ ?cs" using a b c by simp
  moreover have "transfersStarted ?cs = []"
    using a(2) b(2) by (auto simp: transfersStarted_def objectCall_def filter_empty_conv)
  moreover have "\<not> (\<exists>c\<in>set ?cs. objectTransferFailed mf c)"
    using a(3) b(3) by (auto simp: objectTransferFailed_def objectCall_def)
  moreover have "mf \<notin> set (listed rs cd) \<and> mf \<noteq> ix \<longrightarrow>
      (\<forall>rest. commitsFrom (Some mf) (?cs @ rest) = commitsFrom (Some mf) rest
          \<or> commitsFrom (Some mf) (?cs @ rest) = mf # commitsFrom (Some mf) rest)"
  proof (intro impI allI)
    fix rest
    assume h: "mf \<notin> set (listed rs cd) \<and> mf \<noteq> ix"
    have "commitsFrom (Some mf) (?cs @ rest)
            = commitsFrom (Some mf) ((Call FromIter cd out # cs @ cs2) @ Call ToUpload mf r3 # rest)"
      by simp
    also have "\<dots> = commitsFrom (Some mf) (Call ToUpload mf r3 # rest)"
      using a(2) b(2) h by (intro commitsFrom_skip) (auto simp: objectCall_def)
    finally show "commitsFrom (Some mf) (?cs @ rest) = commitsFrom (Some mf) rest
          \<or> commitsFrom (Some mf) (?cs @ rest) = mf # commitsFrom (Some mf) rest"
      by simp
  qed
  ultimately show ?thesis by blast
qed

lemma transferBlock_toBkt:
  assumes "transferBlock rs cd ix mf content s = (r, s')"
  shows "(\<forall>p v. toBkt s p = Some v \<longrightarrow> toBkt s' p = Some v \<or> (p = mf \<and> toBkt s' p = Some content))
       \<and> (r = None \<longrightarrow> toBkt s' mf = Some content
            \<and> toBkt s' ix \<noteq> None \<and> (\<forall>n\<in>set (listed rs cd). toBkt s' n \<noteq> None))
       \<and> blockCounters s' = (if r = None then (fst (blockCounters s), Suc (snd (blockCounters s)))
                              else blockCounters s)
       \<and> (faults s = [] \<longrightarrow> faults s' = [])"
  using assms
proof (cases rule: transferBlock_parts)
  case (chunks u1)
  then show ?thesis using Iter_chunks_toBkt [OF chunks(1)] by auto
next
  case (index u1 s1 e)
  then show ?thesis
    using Iter_chunks_toBkt [OF index(1)] eo_keeps [OF index(2)] eo_blockCounters [OF index(2)]
      eo_faults [OF index(2)] by auto
next
  case (meta u1 s1 s2 s3 r3)
  note i = Iter_chunks_toBkt [OF meta(1)]
  note k = eo_keeps [OF meta(2)] and b = eo_blockCounters [OF meta(2)]
    and f = eo_faults [OF meta(2)] and e = eo_ensures [OF meta(2)]
  note up = Upload_shape [OF meta(3)]
  show ?thesis
  proof (cases r3)
    case None
    with meta(5) have s': "s' = incBlocksReplicated s3" "r = None" by auto
    have t: "toBkt s' = (toBkt s2)(mf \<mapsto> content)"
      using up(4) None s' by (simp add: incBlocksReplicated_def)
    have "\<forall>p v. toBkt s p = Some v \<longrightarrow> toBkt s' p = Some v \<or> (p = mf \<and> toBkt s' p = Some content)"
      using i k t by auto
    moreover have "toBkt s' mf = Some content" using t by simp
    moreover have "toBkt s' ix \<noteq> None" using t e by auto
    moreover have "\<forall>n\<in>set (listed rs cd). toBkt s' n \<noteq> None"
    proof
      fix n assume "n \<in> set (listed rs cd)"
      with i s'(2) have "toBkt s1 n \<noteq> None" by (auto simp del: not_None_eq)
      then obtain v where "toBkt s1 n = Some v" by auto
      from k [OF this] show "toBkt s' n \<noteq> None" using t by auto
    qed
    moreover have "blockCounters s' = (fst (blockCounters s), Suc (snd (blockCounters s)))"
      using i b up(2) s' by (auto simp: blockCounters_def incBlocksReplicated_def)
    moreover have "faults s = [] \<longrightarrow> faults s' = []"
      using i f up(3) s' by (auto simp: incBlocksReplicated_def)
    ultimately show ?thesis using s'(2) by simp
  next
    case (Some e3)
    with meta(4) have s': "s' = s3" "r \<noteq> None" by auto
    have t: "toBkt s' = toBkt s2" using up(4) Some s' by simp
    have "\<forall>p v. toBkt s p = Some v \<longrightarrow> toBkt s' p = Some v"
      using i k t by auto
    moreover have "blockCounters s' = blockCounters s"
      using i b up(2) s' by (auto simp: blockCounters_def)
    moreover have "faults s = [] \<longrightarrow> faults s' = []"
      using i f up(3) s' by auto
    ultimately show ?thesis using s'(2) by auto
  qed
qed

lemma ensureBlock_parts:
  assumes "ensureBlockIsReplicated rs uid s = (r, s')"
  obtains (abort) out cs where "r \<noteq> None" "toBkt s' = toBkt s" "metrics s' = metrics s"
      "faults s = [] \<longrightarrow> faults s' = []"
      "calls s' = calls s @ Call FromGetExpectedErrs (metaFileOf uid) out # cs"
      "\<forall>c\<in>set cs. callOp c = ToGet"
  | (already) content where "r = None" "toBkt s' = toBkt s"
      "objects (fromBkt rs) (metaFileOf uid) = Some content"
      "toBkt s (metaFileOf uid) = Some content"
      "metrics s' = (metrics s)\<lparr>blocksAlreadyReplicated := blocksAlreadyReplicated (metrics s) + 1\<rparr>"
      "faults s = [] \<longrightarrow> faults s' = []"
      "calls s' = calls s @ [Call FromGetExpectedErrs (metaFileOf uid) None,
                             Call ToGet (metaFileOf uid) None]"
  | (transfer) s0 content out where
      "transferBlock rs (chunksDirOf uid) (indexFileOf uid) (metaFileOf uid) content s0 = (r, s')"
      "objects (fromBkt rs) (metaFileOf uid) = Some content"
      "toBkt s0 = toBkt s" "metrics s0 = metrics s"
      "faults s = [] \<longrightarrow> faults s0 = []"
      "calls s0 = calls s @ [Call FromGetExpectedErrs (metaFileOf uid) None,
                             Call ToGet (metaFileOf uid) out]"
  using assms
  apply (simp add: ensureBlockIsReplicated_def Let_def metaFileOf_def chunksDirOf_def
      indexFileOf_def
      split: prod.splits sum.splits if_splits option.splits bool.splits)
  apply (auto simp: prim_defs IsObjNotFoundErr_def errors_Wrap_def incBlocksAlreadyReplicated_def
      split: list.splits option.splits if_splits reader.splits)
  done

lemma meta_not_index: "metaFileOf uid \<noteq> indexFileOf uid"
  by (simp add: metaFileOf_def indexFileOf_def path_Join_def MetaFilename_def IndexFilename_def)

lemma meta_not_listed: "metaFileOf uid \<notin> set (listed rs (chunksDirOf uid))"
  by (auto simp: metaFileOf_def chunksDirOf_def listed_def entryName_def path_Join_def
      MetaFilename_def ChunksDirname_def)

lemma transferBlock_failed_meta:
  assumes "transferBlock rs cd ix mf content s = (r, s')"
    and "mf \<notin> set (listed rs cd)" and "mf \<noteq> ix" and "r \<noteq> None"
  shows "toBkt s' mf = toBkt s mf"
  using assms(1)
proof (cases rule: transferBlock_parts)
  case (chunks u1)
  then show ?thesis using Iter_chunks_toBkt [OF chunks(1)] assms(2) by auto
next
  case (index u1 s1 e)
  then show ?thesis
    using Iter_chunks_toBkt [OF index(1)] eo_other [OF index(2)] assms(2,3) by auto
next
  case (meta u1 s1 s2 s3 r3)
  with assms(4) have "r3 \<noteq> None" "s' = s3" by auto
  then show ?thesis
    using Iter_chunks_toBkt [OF meta(1)] eo_other [OF meta(2)] Upload_shape(4) [OF meta(3)]
      assms(2,3) by auto
qed

lemma already_exit:
  assumes "objects (fromBkt rs) (metaFileOf uid) = Some content"
      and "toBkt s (metaFileOf uid) = Some content"
      and "quiet 4 s"
  shows "ensureBlockIsReplicated rs uid s =
           (None, s\<lparr>faults := drop 4 (faults s),
                    calls := calls s @ [Call FromGetExpectedErrs (metaFileOf uid) None,
                                        Call ToGet (metaFileOf uid) None],
                    metrics := (metrics s)\<lparr>blocksAlreadyReplicated :=
                                 blocksAlreadyReplicated (metrics s) + 1\<rparr>\<rparr>)"
  using assms
  by (auto simp: ensureBlockIsReplicated_def prim_defs incBlocksAlreadyReplicated_def
      quiet_def metaFileOf_def Let_def IsObjNotFoundErr_def
      split: list.splits)

lemma ensureBlock_started:
  assumes "ensureBlockIsReplicated rs uid s = (r, s')"
  shows "\<exists>cs. calls s' = calls s @ cs \<and> transfersStarted cs = [metaFileOf uid]
           \<and> (\<forall>cur rest.
                 commitsFrom cur (cs @ rest) = commitsFrom (Some (metaFileOf uid)) rest
               \<or> commitsFrom cur (cs @ rest)
                    = metaFileOf uid # commitsFrom (Some (metaFileOf uid)) rest)"
  using assms
proof (cases rule: ensureBlock_parts)
  case (abort out cs)
  let ?cs = "Call FromGetExpectedErrs (metaFileOf uid) out # cs"
  have "transfersStarted ?cs = [metaFileOf uid]"
    using abort(6) by (auto simp: transfersStarted_def filter_empty_conv)
  moreover have "\<forall>cur rest. commitsFrom cur (?cs @ rest)
                   = commitsFrom (Some (metaFileOf uid)) rest"
    using abort(6) by (auto intro!: commitsFrom_skip)
  ultimately show ?thesis using abort(5) by blast
next
  case (already content)
  then show ?thesis by (auto simp: transfersStarted_def)
next
  case (transfer s0 content out)
  let ?mf = "metaFileOf uid"
  from transferBlock_calls [OF transfer(1)] meta_not_listed [of uid rs] meta_not_index [of uid]
  obtain cs where
    cs: "calls s' = calls s0 @ cs" "transfersStarted cs = []"
      "\<forall>rest. commitsFrom (Some ?mf) (cs @ rest) = commitsFrom (Some ?mf) rest
          \<or> commitsFrom (Some ?mf) (cs @ rest) = ?mf # commitsFrom (Some ?mf) rest"
    by blast
  let ?cs = "[Call FromGetExpectedErrs ?mf None, Call ToGet ?mf out] @ cs"
  have "calls s' = calls s @ ?cs" using cs(1) transfer(6) by simp
  moreover have "transfersStarted ?cs = [?mf]" using cs(2) by (simp add: transfersStarted_def)
  moreover have "\<forall>cur rest. commitsFrom cur (?cs @ rest) = commitsFrom (Some ?mf) rest
          \<or> commitsFrom cur (?cs @ rest) = ?mf # commitsFrom (Some ?mf) rest"
    using cs(3) by simp
  ultimately show ?thesis by blast
qed

lemma ensureBlock_toBkt:
  assumes "ensureBlockIsReplicated rs uid s = (r, s')" and "toBkt s p = Some v"
  shows "toBkt s' p = Some v
       \<or> (p = metaFileOf uid \<and> toBkt s' p = objects (fromBkt rs) p \<and> toBkt s' p \<noteq> None)"
  using assms(1)
proof (cases rule: ensureBlock_parts)
  case (abort out cs)
  then show ?thesis using assms(2) by simp
next
  case (already content)
  then show ?thesis using assms(2) by simp
next
  case (transfer s0 content out)
  from transferBlock_toBkt [OF transfer(1)] have
    "toBkt s0 p = Some v \<longrightarrow>
       toBkt s' p = Some v \<or> (p = metaFileOf uid \<and> toBkt s' p = Some content)"
    by blast
  with transfer(2,3) assms(2) show ?thesis by auto
qed

lemma ensureBlock_faults:
  assumes "ensureBlockIsReplicated rs uid s = (r, s')" and "faults s = []"
  shows "faults s' = []"
  using assms(1)
proof (cases rule: ensureBlock_parts)
  case (transfer s0 content out)
  then show ?thesis using transferBlock_toBkt [OF transfer(1)] assms(2) by auto
qed (use assms(2) in auto)

lemma committedD:
  "committed rs s uid \<Longrightarrow>
     \<exists>content. toBkt s (metaFileOf uid) = Some content
        \<and> objects (fromBkt rs) (metaFileOf uid) = Some content"
  by (auto simp: committed_def split: option.splits)

lemma committedI:
  "toBkt s (metaFileOf uid) = Some content \<Longrightarrow>
   objects (fromBkt rs) (metaFileOf uid) = Some content \<Longrightarrow> committed rs s uid"
  by (simp add: committed_def)

lemma committed_cong: "toBkt t = toBkt s \<Longrightarrow> committed rs t uid = committed rs s uid"
  by (simp add: committed_def)

lemma ensureBlock_commits:
  assumes "ensureBlockIsReplicated rs uid s = (None, s')"
  shows "committed rs s' uid"
  using assms
proof (cases rule: ensureBlock_parts)
  case (transfer s0 content out)
  then show ?thesis using transferBlock_toBkt [OF transfer(1)] by (auto intro: committedI)
next
  case (already content)
  then show ?thesis by (auto intro: committedI)
qed auto

lemma ensureBlock_keeps_committed:
  assumes "ensureBlockIsReplicated rs uid s = (r, s')" and "committed rs s b"
  shows "committed rs s' b"
proof -
  from committedD [OF assms(2)] obtain v where v: "toBkt s (metaFileOf b) = Some v"
    "objects (fromBkt rs) (metaFileOf b) = Some v"
    by auto
  from ensureBlock_toBkt [OF assms(1) v(1)] v(2) show ?thesis
    by (auto intro: committedI)
qed

lemma fresh_append:
  assumes "freshUploads s M cs1" and "freshUploads s1 M cs2"
    and "\<And>p v. toBkt s p = Some v \<Longrightarrow> toBkt s1 p \<noteq> None"
  shows "freshUploads s M (cs1 @ cs2)"
  unfolding freshUploads_def
proof
  fix c assume c: "c \<in> set (cs1 @ cs2)"
  show "callOp c = ToUpload \<longrightarrow> toBkt s (callName c) = None \<or> callName c \<in> M"
  proof (cases "c \<in> set cs1")
    case True
    with assms(1) show ?thesis by (simp add: freshUploads_def)
  next
    case False
    with c have "c \<in> set cs2" by simp
    with assms(2) have "callOp c = ToUpload \<longrightarrow> toBkt s1 (callName c) = None \<or> callName c \<in> M"
      by (simp add: freshUploads_def)
    moreover have "toBkt s1 (callName c) = None \<Longrightarrow> toBkt s (callName c) = None"
      using assms(3) [of "callName c"] by (cases "toBkt s (callName c)") auto
    ultimately show ?thesis by blast
  qed
qed

lemma fresh_mono: "freshUploads s M cs \<Longrightarrow> M \<subseteq> M' \<Longrightarrow> freshUploads s M' cs"
  by (auto simp: freshUploads_def)

lemma fresh_cong: "toBkt t = toBkt s \<Longrightarrow> freshUploads t M cs = freshUploads s M cs"
  by (simp add: freshUploads_def)

lemma eo_fresh:
  assumes "ensureObjectReplicated rs n s = (r, s')"
  shows "\<exists>cs. calls s' = calls s @ cs \<and> freshUploads s {} cs"
  using assms
  by (auto simp: ensureObjectReplicated_def prim_defs incObjectsReplicated_def freshUploads_def
      split: list.splits option.splits prod.splits sum.splits if_splits)

lemma chunks_fresh:
  "iterate (replicateChunk rs) names (u, s) = (r, u', s') \<Longrightarrow>
     \<exists>cs. calls s' = calls s @ cs \<and> freshUploads s {} cs"
proof (induction names arbitrary: u s)
  case Nil
  then show ?case by (simp add: freshUploads_def)
next
  case (Cons n names)
  obtain r1 s1 where e: "ensureObjectReplicated rs n s = (r1, s1)"
    by (cases "ensureObjectReplicated rs n s") auto
  from eo_fresh [OF e] obtain cs1 where
    cs1: "calls s1 = calls s @ cs1" "freshUploads s {} cs1" by blast
  show ?case
  proof (cases r1)
    case None
    with Cons.prems e have "iterate (replicateChunk rs) names ((), s1) = (r, u', s')"
      by (simp add: replicateChunk_apply)
    from Cons.IH [OF this] obtain cs2 where
      cs2: "calls s' = calls s1 @ cs2" "freshUploads s1 {} cs2" by blast
    have k: "\<And>p v. toBkt s p = Some v \<Longrightarrow> toBkt s1 p \<noteq> None"
      using eo_keeps [OF e] by simp
    have "freshUploads s {} (cs1 @ cs2)"
      using cs1(2) cs2(2) k by (rule fresh_append)
    moreover have "calls s' = calls s @ (cs1 @ cs2)" using cs1(1) cs2(1) by simp
    ultimately show ?thesis by blast
  next
    case (Some e1)
    with Cons.prems e have "s' = s1" by (auto simp: replicateChunk_apply)
    with cs1 show ?thesis by blast
  qed
qed

lemma Iter_chunks_fresh:
  assumes "fromBkt_Iter rs dir (replicateChunk rs) (u, s) = (r, u', s')"
  shows "\<exists>cs. calls s' = calls s @ cs \<and> freshUploads s {} cs"
proof (cases "fst (nextFault s)")
  case (Some e)
  with assms have "s' = recordCall FromIter dir (Some e) (snd (nextFault s))"
    by (auto simp: fromBkt_Iter_def split: prod.splits option.splits)
  then have "calls s' = calls s @ [Call FromIter dir (Some e)]"
    by (auto simp: recordCall_def nextFault_def split: list.splits)
  moreover have "freshUploads s {} [Call FromIter dir (Some e)]" by (simp add: freshUploads_def)
  ultimately show ?thesis by blast
next
  case None
  let ?s = "recordCall FromIter dir None (snd (nextFault s))"
  from assms None have "iterate (replicateChunk rs) (listed rs dir) (u, ?s) = (r, u', s')"
    by (auto simp: fromBkt_Iter_def split: prod.splits option.splits)
  from chunks_fresh [OF this] obtain cs where
    cs: "calls s' = calls ?s @ cs" "freshUploads ?s {} cs" by blast
  have t: "toBkt ?s = toBkt s" "calls ?s = calls s @ [Call FromIter dir None]"
    by (auto simp: recordCall_def nextFault_def split: list.splits)
  have "freshUploads s {} cs" using cs(2) by (simp only: fresh_cong [OF t(1)])
  then have "freshUploads s {} ([Call FromIter dir None] @ cs)"
    by (auto simp: freshUploads_def)
  moreover have "calls s' = calls s @ ([Call FromIter dir None] @ cs)" using cs(1) t(2) by simp
  ultimately show ?thesis by blast
qed

lemma transferBlock_fresh:
  assumes "transferBlock rs cd ix mf content s = (r, s')"
  shows "\<exists>cs. calls s' = calls s @ cs \<and> freshUploads s {mf} cs"
  using assms
proof (cases rule: transferBlock_parts)
  case (chunks u1)
  from Iter_chunks_fresh [OF chunks(1)] show ?thesis by (blast intro: fresh_mono)
next
  case (index u1 s1 e)
  from Iter_chunks_fresh [OF index(1)] obtain cs1 where
    cs1: "calls s1 = calls s @ cs1" "freshUploads s {} cs1" by blast
  from eo_fresh [OF index(2)] obtain cs2 where
    cs2: "calls s' = calls s1 @ cs2" "freshUploads s1 {} cs2" by blast
  have k: "\<And>p v. toBkt s p = Some v \<Longrightarrow> toBkt s1 p \<noteq> None"
    using Iter_chunks_toBkt [OF index(1)] by auto
  have "freshUploads s {} (cs1 @ cs2)" using cs1(2) cs2(2) k by (rule fresh_append)
  then have "freshUploads s {mf} (cs1 @ cs2)" by (rule fresh_mono) simp
  moreover have "calls s' = calls s @ (cs1 @ cs2)" using cs1(1) cs2(1) by simp
  ultimately show ?thesis by blast
next
  case (meta u1 s1 s2 s3 r3)
  from Iter_chunks_fresh [OF meta(1)] obtain cs1 where
    cs1: "calls s1 = calls s @ cs1" "freshUploads s {} cs1" by blast
  from eo_fresh [OF meta(2)] obtain cs2 where
    cs2: "calls s2 = calls s1 @ cs2" "freshUploads s1 {} cs2" by blast
  have k: "\<And>p v. toBkt s p = Some v \<Longrightarrow> toBkt s1 p \<noteq> None"
    using Iter_chunks_toBkt [OF meta(1)] by auto
  have "freshUploads s {} (cs1 @ cs2)" using cs1(2) cs2(2) k by (rule fresh_append)
  then have "freshUploads s {mf} ((cs1 @ cs2) @ [Call ToUpload mf r3])"
    by (auto simp: freshUploads_def)
  moreover have "calls s' = calls s2 @ [Call ToUpload mf r3]"
    using Upload_shape(1) [OF meta(3)] meta(4,5) by (cases r3) (auto simp: incBlocksReplicated_def)
  then have "calls s' = calls s @ ((cs1 @ cs2) @ [Call ToUpload mf r3])"
    using cs1(1) cs2(1) by simp
  ultimately show ?thesis by blast
qed

lemma ensureBlock_fresh:
  assumes "ensureBlockIsReplicated rs uid s = (r, s')"
  shows "\<exists>cs. calls s' = calls s @ cs \<and> freshUploads s {metaFileOf uid} cs"
  using assms
proof (cases rule: ensureBlock_parts)
  case (abort out cs)
  then show ?thesis by (auto simp: freshUploads_def)
next
  case (already content)
  then show ?thesis by (auto simp: freshUploads_def)
next
  case (transfer s0 content out)
  from transferBlock_fresh [OF transfer(1)] obtain cs where
    cs: "calls s' = calls s0 @ cs" "freshUploads s0 {metaFileOf uid} cs" by blast
  let ?cs = "[Call FromGetExpectedErrs (metaFileOf uid) None, Call ToGet (metaFileOf uid) out] @ cs"
  have "freshUploads s {metaFileOf uid} cs"
    using cs(2) by (simp only: fresh_cong [OF transfer(3)])
  then have "freshUploads s {metaFileOf uid} ?cs"
    by (auto simp: freshUploads_def)
  moreover have "calls s' = calls s @ ?cs" using cs(1) transfer(6) by simp
  ultimately show ?thesis by blast
qed

lemma candidates_fresh:
  "replicateCandidates rs bs s = (r, s') \<Longrightarrow>
     \<exists>cs. calls s' = calls s @ cs \<and> freshUploads s (blockMetaFile ` set bs) cs"
proof (induction bs arbitrary: s)
  case Nil
  then show ?case by (simp add: freshUploads_def)
next
  case (Cons b bs)
  obtain r1 s1 where e: "ensureBlockIsReplicated rs (ULID (BlockMeta b)) s = (r1, s1)"
    by (cases "ensureBlockIsReplicated rs (ULID (BlockMeta b)) s") auto
  from ensureBlock_fresh [OF e] obtain cs1 where
    cs1: "calls s1 = calls s @ cs1" "freshUploads s {blockMetaFile b} cs1" by auto
  have f1: "freshUploads s (blockMetaFile ` set (b # bs)) cs1"
    using cs1(2) by (rule fresh_mono) simp
  show ?case
  proof (cases r1)
    case None
    with Cons.prems e have "replicateCandidates rs bs s1 = (r, s')" by simp
    from Cons.IH [OF this] obtain cs2 where
      cs2: "calls s' = calls s1 @ cs2" "freshUploads s1 (blockMetaFile ` set bs) cs2" by auto
    have f2: "freshUploads s1 (blockMetaFile ` set (b # bs)) cs2"
      using cs2(2) by (rule fresh_mono) auto
    have k: "\<And>p v. toBkt s p = Some v \<Longrightarrow> toBkt s1 p \<noteq> None"
      using ensureBlock_toBkt [OF e] by auto
    have "freshUploads s (blockMetaFile ` set (b # bs)) (cs1 @ cs2)"
      using f1 f2 k by (rule fresh_append)
    moreover have "calls s' = calls s @ (cs1 @ cs2)" using cs1(1) cs2(1) by simp
    ultimately show ?thesis by blast
  next
    case (Some e1)
    with Cons.prems e have "s' = s1" by auto
    with cs1(1) f1 show ?thesis by blast
  qed
qed

lemma discoverBlock_frame:
  assumes "discoverBlock rs name (avail, s) = (r, avail', s')"
  shows "toBkt s' = toBkt s \<and> calls s' = calls s \<and> faults s' = faults s
       \<and> blockCounters s' = blockCounters s
       \<and> objectsReplicated (metrics s') = objectsReplicated (metrics s)
       \<and> fst (discoverBlock rs name (avail, t)) = r
       \<and> fst (snd (discoverBlock rs name (avail, t))) = avail'"
  using assms
  by (auto simp: discoverBlock_def Let_def incOriginIterations_def incOriginMetaLoads_def
      incOriginPartialMeta_def blockCounters_def
      split: option.splits prod.splits if_splits)

lemma discover_frame:
  "iterate (discoverBlock rs) names (avail, s) = (r, avail', s') \<Longrightarrow>
     toBkt s' = toBkt s \<and> calls s' = calls s \<and> faults s' = faults s
       \<and> blockCounters s' = blockCounters s
       \<and> objectsReplicated (metrics s') = objectsReplicated (metrics s)
       \<and> fst (iterate (discoverBlock rs) names (avail, t)) = r
       \<and> fst (snd (iterate (discoverBlock rs) names (avail, t))) = avail'"
proof (induction names arbitrary: avail s t)
  case Nil
  then show ?case by simp
next
  case (Cons n names)
  obtain r1 a1 s1 where d: "discoverBlock rs n (avail, s) = (r1, a1, s1)"
    by (cases "discoverBlock rs n (avail, s)") auto
  obtain r2 a2 t1 where d2: "discoverBlock rs n (avail, t) = (r2, a2, t1)"
    by (cases "discoverBlock rs n (avail, t)") auto
  from discoverBlock_frame [OF d, of t] d2 have eq: "r2 = r1" "a2 = a1" by auto
  note f = discoverBlock_frame [OF d, of t]
  show ?case
  proof (cases r1)
    case None
    with Cons.prems d have it: "iterate (discoverBlock rs) names (a1, s1) = (r, avail', s')"
      by simp
    from Cons.IH [OF it, of t1] f d2 eq None show ?thesis by simp
  next
    case (Some e)
    with Cons.prems d have "r = r1" "avail' = a1" "s' = s1" by auto
    with f d2 eq Some show ?thesis by simp
  qed
qed

lemma candidates_started:
  "replicateCandidates rs bs s = (r, s') \<Longrightarrow>
     \<exists>k cs. k \<le> length bs \<and> calls s' = calls s @ cs
        \<and> transfersStarted cs = map blockMetaFile (take k bs)
        \<and> (r = None \<longrightarrow> k = length bs)
        \<and> (\<forall>cur. subseq (commitsFrom cur cs) (map blockMetaFile (take k bs)))"
proof (induction bs arbitrary: s)
  case Nil
  then show ?case by (simp add: transfersStarted_def)
next
  case (Cons b bs)
  obtain r1 s1 where e: "ensureBlockIsReplicated rs (ULID (BlockMeta b)) s = (r1, s1)"
    by (cases "ensureBlockIsReplicated rs (ULID (BlockMeta b)) s") auto
  from ensureBlock_started [OF e] obtain cs1 where
    cs1: "calls s1 = calls s @ cs1" "transfersStarted cs1 = [blockMetaFile b]"
      "\<forall>cur rest. commitsFrom cur (cs1 @ rest) = commitsFrom (Some (blockMetaFile b)) rest
          \<or> commitsFrom cur (cs1 @ rest)
               = blockMetaFile b # commitsFrom (Some (blockMetaFile b)) rest"
    by blast
  show ?case
  proof (cases r1)
    case None
    with Cons.prems e have "replicateCandidates rs bs s1 = (r, s')" by simp
    from Cons.IH [OF this] obtain k cs where
      k: "k \<le> length bs" "calls s' = calls s1 @ cs"
      "transfersStarted cs = map blockMetaFile (take k bs)" "r = None \<longrightarrow> k = length bs"
      "\<forall>cur. subseq (commitsFrom cur cs) (map blockMetaFile (take k bs))"
      by blast
    have "Suc k \<le> length (b # bs)" using k(1) by simp
    moreover have "calls s' = calls s @ (cs1 @ cs)" using cs1(1) k(2) by simp
    moreover have "transfersStarted (cs1 @ cs) = map blockMetaFile (take (Suc k) (b # bs))"
      using cs1(2) k(3) by (simp add: transfersStarted_def)
    moreover have "r = None \<longrightarrow> Suc k = length (b # bs)" using k(4) by simp
    moreover have "\<forall>cur. subseq (commitsFrom cur (cs1 @ cs))
                      (map blockMetaFile (take (Suc k) (b # bs)))"
    proof
      fix cur
      from k(5) have sub: "subseq (commitsFrom (Some (blockMetaFile b)) cs)
                             (map blockMetaFile (take k bs))" by blast
      from cs1(3) have "commitsFrom cur (cs1 @ cs) = commitsFrom (Some (blockMetaFile b)) cs
          \<or> commitsFrom cur (cs1 @ cs)
               = blockMetaFile b # commitsFrom (Some (blockMetaFile b)) cs"
        by blast
      with sub show "subseq (commitsFrom cur (cs1 @ cs))
                      (map blockMetaFile (take (Suc k) (b # bs)))"
        by auto
    qed
    ultimately show ?thesis by blast
  next
    case (Some e1)
    with Cons.prems e have "s' = s1" "r \<noteq> None" by auto
    moreover have "transfersStarted cs1 = map blockMetaFile (take (Suc 0) (b # bs))"
      using cs1(2) by simp
    moreover have "Suc 0 \<le> length (b # bs)" by simp
    moreover have "\<forall>cur. subseq (commitsFrom cur cs1) (map blockMetaFile (take (Suc 0) (b # bs)))"
    proof
      fix cur
      from cs1(3) [rule_format, of cur "[]"]
      show "subseq (commitsFrom cur cs1) (map blockMetaFile (take (Suc 0) (b # bs)))"
        by auto
    qed
    ultimately show ?thesis using cs1(1) by blast
  qed
qed

lemma candidates_append:
  "replicateCandidates rs (pre @ post) s =
     (case replicateCandidates rs pre s of
        (Some e, s1) \<Rightarrow> (Some e, s1)
      | (None, s1) \<Rightarrow> replicateCandidates rs post s1)"
  by (induction pre arbitrary: s) (auto split: prod.splits option.splits)

lemma candidates_toBkt:
  "replicateCandidates rs bs s = (r, s') \<Longrightarrow> toBkt s p = Some v \<Longrightarrow>
     toBkt s' p = Some v
     \<or> (p \<in> blockMetaFile ` set bs \<and> toBkt s' p = objects (fromBkt rs) p \<and> toBkt s' p \<noteq> None)"
proof (induction bs arbitrary: s v)
  case Nil
  then show ?case by simp
next
  case (Cons b bs)
  obtain r1 s1 where e: "ensureBlockIsReplicated rs (ULID (BlockMeta b)) s = (r1, s1)"
    by (cases "ensureBlockIsReplicated rs (ULID (BlockMeta b)) s") auto
  note step = ensureBlock_toBkt [OF e Cons.prems(2)]
  show ?case
  proof (cases r1)
    case None
    with Cons.prems e have it: "replicateCandidates rs bs s1 = (r, s')" by simp
    from step obtain v1 where v1: "toBkt s1 p = Some v1"
      "v1 = v \<or> (p = blockMetaFile b \<and> Some v1 = objects (fromBkt rs) p)"
      by (cases "toBkt s1 p") auto
    from Cons.IH [OF it v1(1)] v1(2) show ?thesis by auto
  next
    case (Some e1)
    with Cons.prems e have "s' = s1" by auto
    with step show ?thesis by auto
  qed
qed

lemma candidates_faults:
  "replicateCandidates rs bs s = (r, s') \<Longrightarrow> faults s = [] \<Longrightarrow> faults s' = []"
proof (induction bs arbitrary: s)
  case Nil
  then show ?case by simp
next
  case (Cons b bs)
  obtain r1 s1 where e: "ensureBlockIsReplicated rs (ULID (BlockMeta b)) s = (r1, s1)"
    by (cases "ensureBlockIsReplicated rs (ULID (BlockMeta b)) s") auto
  note f = ensureBlock_faults [OF e Cons.prems(2)]
  show ?case
  proof (cases r1)
    case None
    with Cons.prems e have it: "replicateCandidates rs bs s1 = (r, s')" by simp
    from Cons.IH [OF it f] show ?thesis .
  next
    case (Some e1)
    with Cons.prems e f show ?thesis by auto
  qed
qed

lemma candidates_keep_committed:
  "replicateCandidates rs bs s = (r, s') \<Longrightarrow> committed rs s b \<Longrightarrow> committed rs s' b"
proof (induction bs arbitrary: s)
  case Nil
  then show ?case by simp
next
  case (Cons c bs)
  obtain r1 s1 where e: "ensureBlockIsReplicated rs (ULID (BlockMeta c)) s = (r1, s1)"
    by (cases "ensureBlockIsReplicated rs (ULID (BlockMeta c)) s") auto
  note k = ensureBlock_keeps_committed [OF e Cons.prems(2)]
  show ?case
  proof (cases r1)
    case None
    with Cons.prems e have it: "replicateCandidates rs bs s1 = (r, s')" by simp
    from Cons.IH [OF it k] show ?thesis .
  next
    case (Some e1)
    with Cons.prems e k show ?thesis by auto
  qed
qed

lemma candidates_commit:
  "replicateCandidates rs bs s = (None, s') \<Longrightarrow>
     \<forall>b\<in>set bs. committed rs s' (ULID (BlockMeta b))"
proof (induction bs arbitrary: s)
  case Nil
  then show ?case by simp
next
  case (Cons c bs)
  obtain r1 s1 where e: "ensureBlockIsReplicated rs (ULID (BlockMeta c)) s = (r1, s1)"
    by (cases "ensureBlockIsReplicated rs (ULID (BlockMeta c)) s") auto
  with Cons.prems have r1: "r1 = None" and it: "replicateCandidates rs bs s1 = (None, s')"
    by (auto split: option.splits)
  from ensureBlock_commits e r1 have "committed rs s1 (ULID (BlockMeta c))" by blast
  from candidates_keep_committed [OF it this] Cons.IH [OF it] show ?case by simp
qed

lemma Iter_discover:
  assumes "fst (nextFault s) = None"
  shows "fromBkt_Iter rs '''' (discoverBlock rs) ([], s) =
           iterate (discoverBlock rs) (listed rs '''')
             ([], recordCall FromIter '''' None (snd (nextFault s)))"
  using assms by (auto simp: fromBkt_Iter_def split: prod.splits option.splits)

lemma nextFault_frame:
  "toBkt (snd (nextFault s)) = toBkt s" "calls (snd (nextFault s)) = calls s"
  "metrics (snd (nextFault s)) = metrics s"
  "faults s = [] \<Longrightarrow> faults (snd (nextFault s)) = []"
  by (auto simp: nextFault_def split: list.splits)

lemma discovery_indep:
  assumes "fst (nextFault s) = None" and "fst (nextFault t) = None"
  shows "fst (fromBkt_Iter rs '''' (discoverBlock rs) ([], s))
           = fst (fromBkt_Iter rs '''' (discoverBlock rs) ([], t))"
    and "candidateBlocks rs s = candidateBlocks rs t"
proof -
  let ?s = "recordCall FromIter '''' None (snd (nextFault s))"
  let ?t = "recordCall FromIter '''' None (snd (nextFault t))"
  obtain r a s' where i: "iterate (discoverBlock rs) (listed rs '''') ([], ?s) = (r, a, s')"
    by (cases "iterate (discoverBlock rs) (listed rs '''') ([], ?s)") auto
  note f = discover_frame [OF i, of ?t]
  show "fst (fromBkt_Iter rs '''' (discoverBlock rs) ([], s))
           = fst (fromBkt_Iter rs '''' (discoverBlock rs) ([], t))"
    using f i by (simp add: Iter_discover assms)
  obtain r' a' t' where j: "iterate (discoverBlock rs) (listed rs '''') ([], ?t) = (r', a', t')"
    by (cases "iterate (discoverBlock rs) (listed rs '''') ([], ?t)") auto
  with f have "a' = a" by simp
  then show "candidateBlocks rs s = candidateBlocks rs t"
    using i j by (simp add: candidateBlocks_def Iter_discover assms)
qed

lemma Iter_discover_frame:
  assumes "fromBkt_Iter rs '''' (discoverBlock rs) ([], s) = (r, a, s')"
  shows "\<exists>out. calls s' = calls s @ [Call FromIter '''' out] \<and> toBkt s' = toBkt s"
proof (cases "fst (nextFault s)")
  case (Some e)
  with assms show ?thesis
    using nextFault_frame [of s]
    by (auto simp: fromBkt_Iter_def recordCall_def split: prod.splits option.splits)
next
  case None
  from assms have "iterate (discoverBlock rs) (listed rs '''')
             ([], recordCall FromIter '''' None (snd (nextFault s))) = (r, a, s')"
    by (simp add: Iter_discover [OF None])
  from discover_frame [OF this] show ?thesis
    using nextFault_frame [of s] by (auto simp: recordCall_def)
qed

lemma execute_parts:
  assumes "execute rs s = (r, s')"
  obtains (listing) out where "r \<noteq> None" "toBkt s' = toBkt s"
      "fst (fromBkt_Iter rs '''' (discoverBlock rs) ([], s)) \<noteq> None"
      "calls s' = calls s @ [Call FromIter '''' out]"
      "blockCounters s' = blockCounters s"
      "objectsReplicated (metrics s') = objectsReplicated (metrics s)"
  | (transfers) s0 where "fst (nextFault s) = None"
      "fst (fromBkt_Iter rs '''' (discoverBlock rs) ([], s)) = None"
      "replicateCandidates rs (sortByMinTime rs (candidateBlocks rs s)) s0 = (r, s')"
      "toBkt s0 = toBkt s" "calls s0 = calls s @ [Call FromIter '''' None]"
      "faults s = [] \<longrightarrow> faults s0 = []"
      "blockCounters s0 = blockCounters s"
      "objectsReplicated (metrics s0) = objectsReplicated (metrics s)"
proof (cases "fst (nextFault s)")
  case (Some e)
  with assms have "r \<noteq> None" "s' = recordCall FromIter '''' (Some e) (snd (nextFault s))"
    "fst (fromBkt_Iter rs '''' (discoverBlock rs) ([], s)) \<noteq> None"
    by (auto simp: execute_def fromBkt_Iter_def split: prod.splits option.splits)
  then show ?thesis using nextFault_frame [of s]
    by (intro listing [of "Some e"]) (auto simp: recordCall_def blockCounters_def)
next
  case None
  let ?s = "recordCall FromIter '''' None (snd (nextFault s))"
  obtain r0 a s0 where i: "iterate (discoverBlock rs) (listed rs '''') ([], ?s) = (r0, a, s0)"
    by (cases "iterate (discoverBlock rs) (listed rs '''') ([], ?s)") auto
  note f = discover_frame [OF i]
  have fr: "toBkt s0 = toBkt s" "calls s0 = calls s @ [Call FromIter '''' None]"
    "faults s = [] \<longrightarrow> faults s0 = []" "blockCounters s0 = blockCounters s"
    "objectsReplicated (metrics s0) = objectsReplicated (metrics s)"
    using f nextFault_frame [of s] by (auto simp: recordCall_def blockCounters_def)
  show ?thesis
  proof (cases r0)
    case (Some e)
    with assms i None have "r \<noteq> None" "s' = s0"
      "fst (fromBkt_Iter rs '''' (discoverBlock rs) ([], s)) \<noteq> None"
      by (auto simp: execute_def Iter_discover)
    with fr show ?thesis by (intro listing [of None]) auto
  next
    case r0: None
    with assms i None have
      "replicateCandidates rs (sortByMinTime rs (candidateBlocks rs s)) s0 = (r, s')"
      by (simp add: execute_def Iter_discover candidateBlocks_def)
    moreover have "fst (fromBkt_Iter rs '''' (discoverBlock rs) ([], s)) = None"
      using i r0 None by (simp add: Iter_discover)
    ultimately show ?thesis using fr None by (intro transfers [of s0]) auto
  qed
qed

lemma quiet_Nil: "faults s = [] \<Longrightarrow> quiet k s"
  by (simp add: quiet_def)

lemma candidates_second:
  "\<forall>b\<in>set bs. committed rs s (ULID (BlockMeta b)) \<Longrightarrow> faults s = [] \<Longrightarrow>
     \<exists>s' cs. replicateCandidates rs bs s = (None, s') \<and> toBkt s' = toBkt s \<and> faults s' = []
        \<and> calls s' = calls s @ cs \<and> uploads cs = []
        \<and> metrics s' = (metrics s)\<lparr>blocksAlreadyReplicated :=
                           blocksAlreadyReplicated (metrics s) + length bs\<rparr>"
proof (induction bs arbitrary: s)
  case Nil
  then show ?case by (simp add: uploads_def)
next
  case (Cons b bs)
  let ?mf = "blockMetaFile b"
  let ?s1 = "s\<lparr>faults := drop 4 (faults s),
                calls := calls s @ [Call FromGetExpectedErrs ?mf None, Call ToGet ?mf None],
                metrics := (metrics s)\<lparr>blocksAlreadyReplicated :=
                             blocksAlreadyReplicated (metrics s) + 1\<rparr>\<rparr>"
  from Cons.prems(1) have "committed rs s (ULID (BlockMeta b))" by simp
  from committedD [OF this] obtain content where c: "objects (fromBkt rs) ?mf = Some content"
    "toBkt s ?mf = Some content"
    by auto
  have e: "ensureBlockIsReplicated rs (ULID (BlockMeta b)) s = (None, ?s1)"
    by (rule already_exit [OF c quiet_Nil [OF Cons.prems(2)]])
  have "toBkt ?s1 = toBkt s" by simp
  from committed_cong [OF this] have "\<forall>b\<in>set bs. committed rs ?s1 (ULID (BlockMeta b))"
    using Cons.prems(1) by (simp del: state.simps)
  moreover have "faults ?s1 = []" using Cons.prems(2) by simp
  ultimately obtain s' cs where
    ih: "replicateCandidates rs bs ?s1 = (None, s')" "toBkt s' = toBkt ?s1" "faults s' = []"
      "calls s' = calls ?s1 @ cs" "uploads cs = []"
      "metrics s' = (metrics ?s1)\<lparr>blocksAlreadyReplicated :=
                           blocksAlreadyReplicated (metrics ?s1) + length bs\<rparr>"
    using Cons.IH [of ?s1] by blast
  have "replicateCandidates rs (b # bs) s = (None, s')" using e ih(1) by simp
  moreover have "toBkt s' = toBkt s" using ih(2) by simp
  moreover have "calls s' = calls s @ ([Call FromGetExpectedErrs ?mf None, Call ToGet ?mf None] @ cs)"
    using ih(4) by simp
  moreover have "uploads ([Call FromGetExpectedErrs ?mf None, Call ToGet ?mf None] @ cs) = []"
    using ih(5) by (simp add: uploads_def)
  moreover have "metrics s' = (metrics s)\<lparr>blocksAlreadyReplicated :=
                           blocksAlreadyReplicated (metrics s) + length (b # bs)\<rparr>"
    using ih(6) by simp
  ultimately show ?case using ih(3) by blast
qed

lemma set_sortByMinTime:
  assumes "sortSliceSorts rs"
  shows "set (sortByMinTime rs bs) = set bs" "length (sortByMinTime rs bs) = length bs"
proof -
  from assms have "mset (sortByMinTime rs bs) = mset bs" by (simp add: sortSliceSorts_def)
  then show "set (sortByMinTime rs bs) = set bs" "length (sortByMinTime rs bs) = length bs"
    by (auto dest: mset_eq_setD mset_eq_length)
qed

lemma stable_sort_sorts:
  "sortSliceSorts (rs\<lparr>sortSlice := (\<lambda>lt. sort_key (\<lambda>b. MinTime (BlockMeta b)))\<rparr>)"
  by (simp add: sortSliceSorts_def sortByMinTime_def)


lemma hard_fetch_error:
  assumes "snd (fetcher rs) = Some e" and "Cause e \<noteq> ErrorSyncMetaNotFound"
  shows "loadMeta rs uid = (None, False, Some (Wrap e ''fetch meta''))"
  using assms by (cases "fetcher rs") (simp add: loadMeta_def errors_Wrap_def)

lemma hard_fetch_aborts:
  assumes "snd (fetcher rs) = Some e" and "Cause e \<noteq> ErrorSyncMetaNotFound"
  shows "\<exists>n\<in>set names. isBlockDir rs n \<noteq> None \<Longrightarrow>
     \<exists>b s'. iterate (discoverBlock rs) names (avail, s) =
        (Some (Wrap (Wrap e ''fetch meta'')
                 (''load meta for block '' @ ulidString b @ '' from origin bucket'')), avail, s')"
proof (induction names arbitrary: s)
  case Nil
  then show ?case by simp
next
  case (Cons n names)
  show ?case
  proof (cases "isBlockDir rs n")
    case None
    with Cons.prems have "\<exists>n\<in>set names. isBlockDir rs n \<noteq> None" by auto
    from Cons.IH [OF this, of "incOriginIterations s"] None show ?thesis
      by (simp add: discoverBlock_def Let_def)
  next
    case (Some b)
    then show ?thesis
      by (auto simp: discoverBlock_def Let_def hard_fetch_error [OF assms] errors_Wrap_def)
  qed
qed

lemma mset_exInsert: "mset (exInsert lt x ys) = add_mset x (mset ys)"
  by (induction ys) simp_all

lemma mset_exSort: "mset (exSort lt xs) = mset xs"
  by (induction xs) (simp_all add: exSort_def mset_exInsert)

lemma set_exInsert: "set (exInsert lt x ys) = insert x (set ys)"
  by (induction ys) auto

lemma sorted_exInsert:
  fixes f :: "'a \<Rightarrow> int"
  shows "sorted (map f ys) \<Longrightarrow> sorted (map f (exInsert (\<lambda>a b. f a < f b) x ys))"
  by (induction ys) (auto simp: set_exInsert)

lemma sorted_exSort:
  fixes f :: "'a \<Rightarrow> int"
  shows "sorted (map f (exSort (\<lambda>a b. f a < f b) xs))"
proof (induction xs)
  case Nil
  then show ?case by (simp add: exSort_def)
next
  case (Cons x xs)
  then show ?case using sorted_exInsert [of f "exSort (\<lambda>a b. f a < f b) xs" x]
    by (simp add: exSort_def)
qed

lemma exScheme_sorts: "sortSliceSorts (exScheme answer)"
  by (simp add: sortSliceSorts_def sortByMinTime_def exScheme_def exFetched_def
      mset_exSort sorted_exSort)

lemma exFetched_sorts: "sortSliceSorts exFetched"
  by (simp add: sortSliceSorts_def sortByMinTime_def exFetched_def mset_exSort sorted_exSort)

lemma pairI: "fst x = a \<Longrightarrow> snd x = b \<Longrightarrow> x = (a, b)"
  by auto

section \<open>Properties of the block filter\<close>

text \<open>
  C5.  \<open>Filter\<close> accepts a block descriptor exactly when its label map is not empty, the
  selector matches its labels, its resolution is an allowed one and its compaction level
  is an allowed one.  The result is the conjunction of the four tests, so it is the same
  in whichever order they are taken.
\<close>

theorem Filter_conjunction:
  "(Filter bf b =
     (Labels (Thanos b) \<noteq> []
      \<and> labelSelector bf (labels_FromMap (Labels (Thanos b)))
      \<and> Resolution (Downsample (Thanos b)) \<in> resolutionLevels bf
      \<and> Level (Compaction (BlockMeta b)) \<in> compactionLevels bf))
   \<and> (Filter bf b =
     (Level (Compaction (BlockMeta b)) \<in> compactionLevels bf
      \<and> Resolution (Downsample (Thanos b)) \<in> resolutionLevels bf
      \<and> labelSelector bf (labels_FromMap (Labels (Thanos b)))
      \<and> Labels (Thanos b) \<noteq> []))"
  by (auto simp: Filter_def Let_def)

section \<open>Properties of an object transfer\<close>

text \<open>
  C8.  Take any call of \<open>ensureObjectReplicated\<close>.  If the existence check on the
  target reports the object present, the call succeeds, its only bucket call is that
  check, and neither the target bucket nor any counter changes, whatever the content of
  the object in the target.  If the call reads the object from the origin, uploads, or
  changes the counter or the target, then the check had reported the object absent.  And
  when the check reports it absent and the call succeeds, the target holds the origin's
  content under the same name afterwards, \<open>objectsReplicated\<close> has grown by one, and the
  bucket calls were the check, the read and the upload.
\<close>

theorem ensureObjectReplicated_existing_or_copied:
  assumes "ensureObjectReplicated rs objectName s = (r, s')"
  shows "(fst (toBkt_Exists objectName s) = Inr True \<longrightarrow>
            r = None \<and> toBkt s' = toBkt s \<and> metrics s' = metrics s
            \<and> newCalls s s' = [Call ToExists objectName None])
       \<and> ((\<exists>c n out. (c = FromGet \<or> c = ToUpload) \<and> Call c n out \<in> set (newCalls s s'))
            \<or> objectsReplicated (metrics s') \<noteq> objectsReplicated (metrics s)
            \<or> toBkt s' \<noteq> toBkt s
            \<longrightarrow> fst (toBkt_Exists objectName s) = Inr False)
       \<and> (fst (toBkt_Exists objectName s) = Inr False \<and> r = None \<longrightarrow>
            (\<exists>content. objects (fromBkt rs) objectName = Some content
               \<and> toBkt s' = (toBkt s)(objectName \<mapsto> content))
            \<and> objectsReplicated (metrics s') = objectsReplicated (metrics s) + 1
            \<and> newCalls s s' = [Call ToExists objectName None, Call FromGet objectName None,
                                Call ToUpload objectName None])"
  using assms
  by (auto simp: ensureObjectReplicated_def prim_defs newCalls_def incObjectsReplicated_def
      split: list.splits option.splits prod.splits sum.splits if_splits)

theorem ensureObjectReplicated_existing_or_copied_witness:
  "fst (toBkt_Exists ''01ARZ3NDEKTSV4RRFFQ69G5FAV/index'' exHasIndex) = Inr True
   \<and> objects (fromBkt exFetched) ''01ARZ3NDEKTSV4RRFFQ69G5FAV/index'' = Some [2]
   \<and> toBkt exHasIndex ''01ARZ3NDEKTSV4RRFFQ69G5FAV/index'' = Some [7]
   \<and> fst (ensureObjectReplicated exFetched ''01ARZ3NDEKTSV4RRFFQ69G5FAV/index'' exHasIndex) = None
   \<and> toBkt (snd (ensureObjectReplicated exFetched ''01ARZ3NDEKTSV4RRFFQ69G5FAV/index'' exHasIndex))
       = toBkt exHasIndex
   \<and> metrics (snd (ensureObjectReplicated exFetched ''01ARZ3NDEKTSV4RRFFQ69G5FAV/index'' exHasIndex))
       = metrics exHasIndex
   \<and> newCalls exHasIndex
        (snd (ensureObjectReplicated exFetched ''01ARZ3NDEKTSV4RRFFQ69G5FAV/index'' exHasIndex))
       = [Call ToExists ''01ARZ3NDEKTSV4RRFFQ69G5FAV/index'' None]
   \<and> fst (toBkt_Exists ''01ARZ3NDEKTSV4RRFFQ69G5FAV/index'' exEmpty) = Inr False
   \<and> fst (ensureObjectReplicated exFetched ''01ARZ3NDEKTSV4RRFFQ69G5FAV/index'' exEmpty) = None
   \<and> toBkt (snd (ensureObjectReplicated exFetched ''01ARZ3NDEKTSV4RRFFQ69G5FAV/index'' exEmpty))
       = (toBkt exEmpty)(''01ARZ3NDEKTSV4RRFFQ69G5FAV/index'' \<mapsto> [2])
   \<and> objectsReplicated
        (metrics (snd (ensureObjectReplicated exFetched ''01ARZ3NDEKTSV4RRFFQ69G5FAV/index'' exEmpty)))
       = objectsReplicated (metrics exEmpty) + 1
   \<and> newCalls exEmpty
        (snd (ensureObjectReplicated exFetched ''01ARZ3NDEKTSV4RRFFQ69G5FAV/index'' exEmpty))
       = [Call ToExists ''01ARZ3NDEKTSV4RRFFQ69G5FAV/index'' None,
          Call FromGet ''01ARZ3NDEKTSV4RRFFQ69G5FAV/index'' None,
          Call ToUpload ''01ARZ3NDEKTSV4RRFFQ69G5FAV/index'' None]"
proof -
  let ?ix = "''01ARZ3NDEKTSV4RRFFQ69G5FAV/index''"
  let ?present = "ensureObjectReplicated exFetched ?ix exHasIndex"
  let ?absent = "ensureObjectReplicated exFetched ?ix exEmpty"
  have p: "fst (toBkt_Exists ?ix exHasIndex) = Inr True"
    "objects (fromBkt exFetched) ?ix = Some [2]" "toBkt exHasIndex ?ix = Some [7]"
    by code_simp+
  have a: "fst (toBkt_Exists ?ix exEmpty) = Inr False" "fst ?absent = None"
    by code_simp+
  have r1: "?present = (fst ?present, snd ?present)" and r2: "?absent = (fst ?absent, snd ?absent)"
    by simp_all
  from ensureObjectReplicated_existing_or_copied [OF r1] p(1) have c1: "fst ?present = None" "toBkt (snd ?present) = toBkt exHasIndex"
    "metrics (snd ?present) = metrics exHasIndex"
    "newCalls exHasIndex (snd ?present) = [Call ToExists ?ix None]"
    by blast+
  from ensureObjectReplicated_existing_or_copied [OF r2] a p(2) have c2: "toBkt (snd ?absent) = (toBkt exEmpty)(?ix \<mapsto> [2])"
    "objectsReplicated (metrics (snd ?absent)) = objectsReplicated (metrics exEmpty) + 1"
    "newCalls exEmpty (snd ?absent)
       = [Call ToExists ?ix None, Call FromGet ?ix None, Call ToUpload ?ix None]"
    by auto
  from p a c1 c2 show ?thesis by simp
qed

section \<open>Properties of a block transfer\<close>

text \<open>
  C1.  Take a block transfer that starts with no \<open>meta.json\<close> for the block in the
  target.  If one of the bucket calls of an object transfer (existence check, read from
  the origin, upload of a chunk or of the index) fails, the block transfer returns an error
  and the target still holds no \<open>meta.json\<close> for the block.  The meta file is uploaded
  last: if the target holds the block's \<open>meta.json\<close> afterwards, the transfer succeeded
  and the index and every listed chunk object are in the target.
\<close>

theorem commit_last_on_failed_transfer:
  assumes "ensureBlockIsReplicated rs uid s = (r, s')"
      and "toBkt s (metaFileOf uid) = None"
  shows "((\<exists>c\<in>set (newCalls s s'). objectTransferFailed (metaFileOf uid) c) \<longrightarrow>
            r \<noteq> None \<and> toBkt s' (metaFileOf uid) = None)
       \<and> (toBkt s' (metaFileOf uid) \<noteq> None \<longrightarrow>
            r = None \<and> toBkt s' (indexFileOf uid) \<noteq> None
            \<and> (\<forall>n\<in>set (listed rs (chunksDirOf uid)). toBkt s' n \<noteq> None))"
  using assms(1)
proof (cases rule: ensureBlock_parts)
  case (abort out cs)
  have "newCalls s s' = Call FromGetExpectedErrs (metaFileOf uid) out # cs"
    using abort(5) by (rule newCalls_append)
  then show ?thesis using abort assms(2)
    by (auto simp: objectTransferFailed_def objectCall_def)
next
  case (already content)
  then show ?thesis using assms(2) by simp
next
  case (transfer s0 content out)
  from transferBlock_calls [OF transfer(1)] obtain cs where
    cs: "calls s' = calls s0 @ cs"
    "(\<exists>c\<in>set cs. objectTransferFailed (metaFileOf uid) c) \<longrightarrow> r \<noteq> None"
    "metaFileOf uid \<notin> set (listed rs (chunksDirOf uid))
       \<and> metaFileOf uid \<noteq> indexFileOf uid
       \<and> (\<exists>c\<in>set cs. objectTransferFailed (metaFileOf uid) c)
     \<longrightarrow> toBkt s' (metaFileOf uid) = toBkt s0 (metaFileOf uid)"
    by blast
  have n: "newCalls s s' = [Call FromGetExpectedErrs (metaFileOf uid) None,
                            Call ToGet (metaFileOf uid) out] @ cs"
    using cs(1) transfer(6) by (intro newCalls_append) simp
  have first: "(\<exists>c\<in>set (newCalls s s'). objectTransferFailed (metaFileOf uid) c) \<longrightarrow>
            r \<noteq> None \<and> toBkt s' (metaFileOf uid) = None"
    using n cs(2,3) assms(2) meta_not_listed [of uid rs] transfer(3) meta_not_index
    by (auto simp: objectTransferFailed_def objectCall_def)
  have second: "toBkt s' (metaFileOf uid) \<noteq> None \<longrightarrow>
            r = None \<and> toBkt s' (indexFileOf uid) \<noteq> None
            \<and> (\<forall>n\<in>set (listed rs (chunksDirOf uid)). toBkt s' n \<noteq> None)"
  proof (cases r)
    case None
    then show ?thesis using transferBlock_toBkt [OF transfer(1)] by (auto simp del: not_None_eq)
  next
    case (Some e)
    then have "toBkt s' (metaFileOf uid) = None"
      using transferBlock_failed_meta [OF transfer(1) meta_not_listed meta_not_index]
        transfer(3) assms(2) by simp
    then show ?thesis by simp
  qed
  from first second show ?thesis by blast
qed

theorem commit_last_on_failed_transfer_witness:
  "toBkt exIndexFails (metaFileOf ulidD) = None
   \<and> list_ex (objectTransferFailed (metaFileOf ulidD))
        (newCalls exIndexFails (snd (ensureBlockIsReplicated exFetched ulidD exIndexFails)))
   \<and> fst (ensureBlockIsReplicated exFetched ulidD exIndexFails) \<noteq> None
   \<and> toBkt (snd (ensureBlockIsReplicated exFetched ulidD exIndexFails)) (metaFileOf ulidD) = None
   \<and> toBkt (snd (ensureBlockIsReplicated exFetched ulidD exIndexFails))
        ''01ARZ3NDEKTSV4RRFFQ69G5FAV/chunks/000001'' = Some [3]"
proof -
  let ?run = "ensureBlockIsReplicated exFetched ulidD exIndexFails"
  have run: "?run = (fst ?run, snd ?run)" by simp
  have h2: "toBkt exIndexFails (metaFileOf ulidD) = None" by code_simp
  have h4: "list_ex (objectTransferFailed (metaFileOf ulidD)) (newCalls exIndexFails (snd ?run))"
    by code_simp
  have h5: "toBkt (snd ?run) ''01ARZ3NDEKTSV4RRFFQ69G5FAV/chunks/000001'' = Some [3]"
    by code_simp
  from commit_last_on_failed_transfer [OF run h2] h4 have "fst ?run \<noteq> None \<and> toBkt (snd ?run) (metaFileOf ulidD) = None"
    by (simp add: list_ex_iff)
  with h2 h4 h5 show ?thesis by simp
qed

text \<open>
  C6.  When the origin and the target hold the same bytes as the block's \<open>meta.json\<close>
  and neither of the two reads of it fails (the two \<open>Get\<close> calls and the two
  \<open>ReadAll\<close> calls are the next four fallible operations), the block transfer succeeds,
  adds one to \<open>blocksAlreadyReplicated\<close> and changes no other counter, leaves the target
  bucket as it was, and makes no bucket call besides the two \<open>Get\<close> calls: no existence
  check, no read of an object, no upload.
\<close>

theorem already_replicated_exit:
  assumes "objects (fromBkt rs) (metaFileOf uid) = Some content"
      and "toBkt s (metaFileOf uid) = Some content"
      and "quiet 4 s"
  shows "\<exists>s'. ensureBlockIsReplicated rs uid s = (None, s')
           \<and> toBkt s' = toBkt s
           \<and> metrics s' = (metrics s)\<lparr>blocksAlreadyReplicated := blocksAlreadyReplicated (metrics s) + 1\<rparr>
           \<and> newCalls s s' = [Call FromGetExpectedErrs (metaFileOf uid) None,
                               Call ToGet (metaFileOf uid) None]"
  by (simp add: already_exit [OF assms] newCalls_def)

theorem already_replicated_exit_witness:
  "objects (fromBkt exFetched) (metaFileOf ulidD) = Some [1]
   \<and> toBkt exCommitted (metaFileOf ulidD) = Some [1]
   \<and> quiet 4 exCommitted
   \<and> (\<exists>s'. ensureBlockIsReplicated exFetched ulidD exCommitted = (None, s')
         \<and> toBkt s' = toBkt exCommitted
         \<and> metrics s' = (metrics exCommitted)\<lparr>blocksAlreadyReplicated :=
                            blocksAlreadyReplicated (metrics exCommitted) + 1\<rparr>
         \<and> newCalls exCommitted s' = [Call FromGetExpectedErrs (metaFileOf ulidD) None,
                                       Call ToGet (metaFileOf ulidD) None])"
proof -
  have h1: "objects (fromBkt exFetched) (metaFileOf ulidD) = Some [1]" by code_simp
  have h2: "toBkt exCommitted (metaFileOf ulidD) = Some [1]" by code_simp
  have h3: "quiet 4 exCommitted" by code_simp
  from already_replicated_exit [OF h1 h2 h3] h1 h2 h3 show ?thesis by simp
qed

text \<open>
  C10.  A block transfer that succeeds adds one to exactly one of
  \<open>blocksAlreadyReplicated\<close> and \<open>blocksReplicated\<close> and leaves the other as it was; a
  block transfer that returns an error changes neither.
\<close>

theorem block_counters_exclusive:
  assumes "ensureBlockIsReplicated rs uid s = (r, s')"
  shows "(r = None \<longrightarrow>
            (blocksAlreadyReplicated (metrics s') = blocksAlreadyReplicated (metrics s) + 1
               \<and> blocksReplicated (metrics s') = blocksReplicated (metrics s))
          \<or> (blocksAlreadyReplicated (metrics s') = blocksAlreadyReplicated (metrics s)
               \<and> blocksReplicated (metrics s') = blocksReplicated (metrics s) + 1))
       \<and> (r \<noteq> None \<longrightarrow>
            blocksAlreadyReplicated (metrics s') = blocksAlreadyReplicated (metrics s)
            \<and> blocksReplicated (metrics s') = blocksReplicated (metrics s))"
  using assms
proof (cases rule: ensureBlock_parts)
  case (transfer s0 content out)
  then show ?thesis using transferBlock_toBkt [OF transfer(1)]
    by (auto simp: blockCounters_def split: if_splits)
qed auto

theorem block_counters_exclusive_witness:
  "fst (ensureBlockIsReplicated exFetched ulidD exEmpty) = None
   \<and> blocksAlreadyReplicated (metrics (snd (ensureBlockIsReplicated exFetched ulidD exEmpty))) = 0
   \<and> blocksReplicated (metrics (snd (ensureBlockIsReplicated exFetched ulidD exEmpty))) = 1
   \<and> fst (ensureBlockIsReplicated exFetched ulidD exCommitted) = None
   \<and> blocksAlreadyReplicated (metrics (snd (ensureBlockIsReplicated exFetched ulidD exCommitted))) = 1
   \<and> blocksReplicated (metrics (snd (ensureBlockIsReplicated exFetched ulidD exCommitted))) = 0
   \<and> fst (ensureBlockIsReplicated exFetched ulidD exIndexFails) \<noteq> None
   \<and> blocksAlreadyReplicated (metrics (snd (ensureBlockIsReplicated exFetched ulidD exIndexFails)))
       = blocksAlreadyReplicated (metrics exIndexFails)
   \<and> blocksReplicated (metrics (snd (ensureBlockIsReplicated exFetched ulidD exIndexFails)))
       = blocksReplicated (metrics exIndexFails)"
proof -
  let ?ok = "ensureBlockIsReplicated exFetched ulidD exEmpty"
  let ?al = "ensureBlockIsReplicated exFetched ulidD exCommitted"
  let ?bad = "ensureBlockIsReplicated exFetched ulidD exIndexFails"
  have e: "fst ?ok = None" "blocksAlreadyReplicated (metrics (snd ?ok)) = 0"
    "blocksReplicated (metrics (snd ?ok)) = 1"
    "fst ?al = None" "blocksAlreadyReplicated (metrics (snd ?al)) = 1"
    "blocksReplicated (metrics (snd ?al)) = 0"
    "fst ?bad \<noteq> None"
    by code_simp+
  have r: "?bad = (fst ?bad, snd ?bad)" by simp
  from block_counters_exclusive [OF r] e(7) have
    "blocksAlreadyReplicated (metrics (snd ?bad)) = blocksAlreadyReplicated (metrics exIndexFails)"
    "blocksReplicated (metrics (snd ?bad)) = blocksReplicated (metrics exIndexFails)"
    by blast+
  with e show ?thesis by simp
qed

text \<open>
  C9, as the code has it.  No call deletes an object of the target.
  \<open>ensureObjectReplicated\<close> leaves every object that the target holds as it is and
  uploads only under a name at which the target held nothing.  A block transfer leaves
  every object of the target as it is, except that the block's own \<open>meta.json\<close> may be
  replaced by the bytes of the origin's \<open>meta.json\<close>, and it uploads only under that
  name or under names at which the target held nothing; a pass does the same for its
  candidate blocks, in whatever order \<open>sort.Slice\<close> arranges them, as long as it
  returns them rearranged (\<open>sortSliceSorts\<close>).  As stated, the claim fails: a \<open>meta.json\<close> in the target that
  differs from the origin's is uploaded anew.
\<close>

theorem destination_kept_except_meta:
  "(ensureObjectReplicated rs n s = (r, s') \<longrightarrow>
      (toBkt s p = Some v \<longrightarrow> toBkt s' p = Some v)
      \<and> freshUploads s {} (newCalls s s'))
   \<and> (ensureBlockIsReplicated rs uid s = (r, s') \<longrightarrow>
      (toBkt s p = Some v \<longrightarrow>
         toBkt s' p = Some v
         \<or> (p = metaFileOf uid \<and> toBkt s' p = objects (fromBkt rs) p \<and> toBkt s' p \<noteq> None))
      \<and> freshUploads s {metaFileOf uid} (newCalls s s'))
   \<and> (execute rs s = (r, s') \<and> sortSliceSorts rs \<longrightarrow>
      (toBkt s p = Some v \<longrightarrow>
         toBkt s' p = Some v
         \<or> (p \<in> blockMetaFile ` set (candidateBlocks rs s)
              \<and> toBkt s' p = objects (fromBkt rs) p \<and> toBkt s' p \<noteq> None))
      \<and> freshUploads s (blockMetaFile ` set (candidateBlocks rs s)) (newCalls s s'))"
proof (intro conjI impI)
  assume "ensureObjectReplicated rs n s = (r, s')" and "toBkt s p = Some v"
  then show "toBkt s' p = Some v" by (rule eo_keeps)
next
  assume "ensureObjectReplicated rs n s = (r, s')"
  from eo_fresh [OF this] show "freshUploads s {} (newCalls s s')"
    by (auto simp: newCalls_def)
next
  assume "ensureBlockIsReplicated rs uid s = (r, s')" and "toBkt s p = Some v"
  then show "toBkt s' p = Some v
        \<or> (p = metaFileOf uid \<and> toBkt s' p = objects (fromBkt rs) p \<and> toBkt s' p \<noteq> None)"
    by (rule ensureBlock_toBkt)
next
  assume "ensureBlockIsReplicated rs uid s = (r, s')"
  from ensureBlock_fresh [OF this] show "freshUploads s {metaFileOf uid} (newCalls s s')"
    by (auto simp: newCalls_def)
next
  assume "execute rs s = (r, s') \<and> sortSliceSorts rs" and v: "toBkt s p = Some v"
  then have e: "execute rs s = (r, s')" and perm: "sortSliceSorts rs" by auto
  from e show "toBkt s' p = Some v
        \<or> (p \<in> blockMetaFile ` set (candidateBlocks rs s)
             \<and> toBkt s' p = objects (fromBkt rs) p \<and> toBkt s' p \<noteq> None)"
  proof (cases rule: execute_parts)
    case (listing out)
    then show ?thesis using v by simp
  next
    case (transfers s0)
    from v transfers(4) have "toBkt s0 p = Some v" by simp
    from candidates_toBkt [OF transfers(3) this] show ?thesis
      by (simp add: set_sortByMinTime [OF perm])
  qed
next
  assume "execute rs s = (r, s') \<and> sortSliceSorts rs"
  then have e: "execute rs s = (r, s')" and perm: "sortSliceSorts rs" by auto
  let ?M = "blockMetaFile ` set (candidateBlocks rs s)"
  from e show "freshUploads s ?M (newCalls s s')"
  proof (cases rule: execute_parts)
    case (listing out)
    have "newCalls s s' = [Call FromIter '''' out]" using listing(4) by (rule newCalls_append)
    then show ?thesis by (simp add: freshUploads_def)
  next
    case (transfers s0)
    from candidates_fresh [OF transfers(3)] obtain cs where
      cs: "calls s' = calls s0 @ cs" "freshUploads s0 ?M cs"
      by (auto simp: set_sortByMinTime [OF perm])
    have "newCalls s s' = Call FromIter '''' None # cs"
      using cs(1) transfers(5) by (intro newCalls_append) simp
    moreover have "freshUploads s ?M cs"
      using cs(2) by (simp only: fresh_cong [OF transfers(4)])
    then have "freshUploads s ?M (Call FromIter '''' None # cs)"
      by (auto simp: freshUploads_def)
    ultimately show ?thesis by simp
  qed
qed

theorem destination_kept_except_meta_witness:
  "toBkt exHasIndex ''01ARZ3NDEKTSV4RRFFQ69G5FAV/index'' = Some [7]
   \<and> toBkt (snd (ensureObjectReplicated exFetched ''01ARZ3NDEKTSV4RRFFQ69G5FAV/index'' exHasIndex))
        ''01ARZ3NDEKTSV4RRFFQ69G5FAV/index'' = Some [7]
   \<and> toBkt (snd (ensureBlockIsReplicated exFetched ulidD exHasIndex))
        ''01ARZ3NDEKTSV4RRFFQ69G5FAV/index'' = Some [7]
   \<and> toBkt (snd (execute exFetched exHasIndex))
        ''01ARZ3NDEKTSV4RRFFQ69G5FAV/index'' = Some [7]
   \<and> toBkt exStale (metaFileOf ulidE) = Some [9]
   \<and> toBkt (snd (execute exFetched exStale)) (metaFileOf ulidE)
       = objects (fromBkt exFetched) (metaFileOf ulidE)
   \<and> metaFileOf ulidE \<in> blockMetaFile ` set (candidateBlocks exFetched exStale)
   \<and> freshUploads exStale (blockMetaFile ` set (candidateBlocks exFetched exStale))
        (newCalls exStale (snd (execute exFetched exStale)))"
proof -
  let ?ix = "''01ARZ3NDEKTSV4RRFFQ69G5FAV/index''"
  let ?eo = "ensureObjectReplicated exFetched ?ix exHasIndex"
  let ?eb = "ensureBlockIsReplicated exFetched ulidD exHasIndex"
  let ?ex = "execute exFetched exHasIndex"
  let ?st = "execute exFetched exStale"
  have h: "toBkt exHasIndex ?ix = Some [7]" "toBkt exStale (metaFileOf ulidE) = Some [9]"
    "?ix \<noteq> metaFileOf ulidD" "?ix \<notin> blockMetaFile ` set (candidateBlocks exFetched exHasIndex)"
    "toBkt (snd ?st) (metaFileOf ulidE) \<noteq> Some [9]"
    by code_simp+
  have r: "?eo = (fst ?eo, snd ?eo)" "?eb = (fst ?eb, snd ?eb)" "?ex = (fst ?ex, snd ?ex)"
    "?st = (fst ?st, snd ?st)"
    by simp_all
  from destination_kept_except_meta [of exFetched ?ix exHasIndex "fst ?eo" "snd ?eo" ?ix "[7]"] r(1) h(1)
  have a: "toBkt (snd ?eo) ?ix = Some [7]" by blast
  from destination_kept_except_meta [of exFetched _ exHasIndex "fst ?eb" "snd ?eb" ?ix "[7]" ulidD] r(2) h(1,3)
  have b: "toBkt (snd ?eb) ?ix = Some [7]" by blast
  from destination_kept_except_meta [of exFetched _ exHasIndex "fst ?ex" "snd ?ex" ?ix "[7]"] r(3) h(1,4) exFetched_sorts
  have c: "toBkt (snd ?ex) ?ix = Some [7]" by blast
  from destination_kept_except_meta [of exFetched _ exStale "fst ?st" "snd ?st" "metaFileOf ulidE" "[9]"] r(4) h(2,5)
    exFetched_sorts
  have d: "toBkt (snd ?st) (metaFileOf ulidE) = objects (fromBkt exFetched) (metaFileOf ulidE)"
    "metaFileOf ulidE \<in> blockMetaFile ` set (candidateBlocks exFetched exStale)"
    "freshUploads exStale (blockMetaFile ` set (candidateBlocks exFetched exStale))
        (newCalls exStale (snd ?st))"
    by blast+
  from h(1,2) a b c d show ?thesis by simp
qed

text \<open>
  The overwrite on the example: before the pass the target holds the byte 9 as the
  \<open>meta.json\<close> of block \<open>ulidE\<close>; the pass uploads to that name, and afterwards the
  target holds the origin's byte 4 there.  A single block transfer does the same.
\<close>

theorem existing_meta_overwritten:
  "toBkt exStale ''01BX5ZZKBKACTAV9WEVGEMMVRZ/meta.json'' = Some [9]
   \<and> toBkt (snd (execute exFetched exStale)) ''01BX5ZZKBKACTAV9WEVGEMMVRZ/meta.json'' = Some [4]
   \<and> Call ToUpload ''01BX5ZZKBKACTAV9WEVGEMMVRZ/meta.json'' None
        \<in> set (newCalls exStale (snd (execute exFetched exStale)))
   \<and> toBkt (snd (ensureBlockIsReplicated exFetched ulidE exStale))
        ''01BX5ZZKBKACTAV9WEVGEMMVRZ/meta.json'' = Some [4]"
  by code_simp

section \<open>Properties of a replication pass\<close>

text \<open>
  C7.  \<open>loadMeta\<close> reports a partial or missing descriptor exactly when the fetch fails
  with cause \<open>ErrorSyncMetaNotFound\<close> or succeeds with a mapping that lacks the
  identifier.  The pass then skips the entry: the callback returns nil, adds one to
  \<open>originPartialMeta\<close> and adds no block.  On any other fetch failure \<open>loadMeta\<close> returns
  the wrapped error without the flag, and a pass whose listing succeeds and names a block
  directory returns that error, wrapped, with the target unchanged and no bucket call
  after the listing.
\<close>

theorem loadMeta_partial_or_fatal:
  "(fst (snd (loadMeta rs uid))
      = ((\<exists>e. snd (fetcher rs) = Some e \<and> Cause e = ErrorSyncMetaNotFound)
         \<or> (snd (fetcher rs) = None \<and> fst (fetcher rs) uid = None)))
   \<and> (isBlockDir rs name = Some uid \<and> fst (snd (loadMeta rs uid)) \<longrightarrow>
        discoverBlock rs name (availableBlocks, s)
          = (None, availableBlocks,
             incOriginPartialMeta (incOriginMetaLoads (incOriginIterations s))))
   \<and> (snd (fetcher rs) = Some e \<and> Cause e \<noteq> ErrorSyncMetaNotFound \<longrightarrow>
        loadMeta rs uid = (None, False, Some (Wrap e ''fetch meta''))
        \<and> (fst (nextFault s) = None
             \<and> (\<exists>n\<in>set (listed rs ''''). isBlockDir rs n \<noteq> None) \<longrightarrow>
            (\<exists>b s'. execute rs s =
                (Some (Wrap (Wrap (Wrap e ''fetch meta'')
                         (''load meta for block '' @ ulidString b @ '' from origin bucket''))
                       ''iterate over origin bucket''), s')
              \<and> toBkt s' = toBkt s \<and> newCalls s s' = [Call FromIter '''' None])))"
proof (intro conjI impI)
  show "fst (snd (loadMeta rs uid))
      = ((\<exists>e. snd (fetcher rs) = Some e \<and> Cause e = ErrorSyncMetaNotFound)
         \<or> (snd (fetcher rs) = None \<and> fst (fetcher rs) uid = None))"
    by (cases "fetcher rs") (auto simp: loadMeta_def split: option.splits)
next
  assume "isBlockDir rs name = Some uid \<and> fst (snd (loadMeta rs uid))"
  then show "discoverBlock rs name (availableBlocks, s)
          = (None, availableBlocks,
             incOriginPartialMeta (incOriginMetaLoads (incOriginIterations s)))"
    by (cases "loadMeta rs uid") (auto simp: discoverBlock_def Let_def)
next
  assume "snd (fetcher rs) = Some e \<and> Cause e \<noteq> ErrorSyncMetaNotFound"
  then show "loadMeta rs uid = (None, False, Some (Wrap e ''fetch meta''))"
    by (simp add: hard_fetch_error)
next
  assume h: "snd (fetcher rs) = Some e \<and> Cause e \<noteq> ErrorSyncMetaNotFound"
    and l: "fst (nextFault s) = None
             \<and> (\<exists>n\<in>set (listed rs ''''). isBlockDir rs n \<noteq> None)"
  let ?s = "recordCall FromIter '''' None (snd (nextFault s))"
  from h l hard_fetch_aborts [of rs e "listed rs ''''" "[]" ?s]
  obtain b s' where
    i: "iterate (discoverBlock rs) (listed rs '''') ([], ?s) =
        (Some (Wrap (Wrap e ''fetch meta'')
                 (''load meta for block '' @ ulidString b @ '' from origin bucket'')), [], s')"
    by blast
  from discover_frame [OF i] have "toBkt s' = toBkt s" "calls s' = calls s @ [Call FromIter '''' None]"
    using nextFault_frame [of s] by (auto simp: recordCall_def)
  moreover from this have "newCalls s s' = [Call FromIter '''' None]"
    by (intro newCalls_append)
  moreover have "execute rs s =
                (Some (Wrap (Wrap (Wrap e ''fetch meta'')
                         (''load meta for block '' @ ulidString b @ '' from origin bucket''))
                       ''iterate over origin bucket''), s')"
    using i l by (simp add: execute_def Iter_discover)
  ultimately show "\<exists>b s'. execute rs s =
                (Some (Wrap (Wrap (Wrap e ''fetch meta'')
                         (''load meta for block '' @ ulidString b @ '' from origin bucket''))
                       ''iterate over origin bucket''), s')
              \<and> toBkt s' = toBkt s \<and> newCalls s s' = [Call FromIter '''' None]"
    by blast
qed

theorem loadMeta_partial_or_fatal_witness:
  "isBlockDir exPartial ''01ARZ3NDEKTSV4RRFFQ69G5FAV/'' = Some ulidD
   \<and> fst (snd (loadMeta exPartial ulidD))
   \<and> discoverBlock exPartial ''01ARZ3NDEKTSV4RRFFQ69G5FAV/'' ([], exEmpty)
       = (None, [], incOriginPartialMeta (incOriginMetaLoads (incOriginIterations exEmpty)))
   \<and> fst (execute exPartial exEmpty) = None
   \<and> originPartialMeta (metrics (snd (execute exPartial exEmpty))) = 2
   \<and> snd (fetcher exHard) = Some (IOError ''fetch failed'')
   \<and> Cause (IOError ''fetch failed'') \<noteq> ErrorSyncMetaNotFound
   \<and> fst (nextFault exEmpty) = None
   \<and> list_ex (\<lambda>n. isBlockDir exHard n \<noteq> None) (listed exHard '''')
   \<and> loadMeta exHard ulidD = (None, False, Some (Wrap (IOError ''fetch failed'') ''fetch meta''))
   \<and> (\<exists>b s'. execute exHard exEmpty =
          (Some (Wrap (Wrap (Wrap (IOError ''fetch failed'') ''fetch meta'')
                   (''load meta for block '' @ ulidString b @ '' from origin bucket''))
                 ''iterate over origin bucket''), s')
        \<and> toBkt s' = toBkt exEmpty \<and> newCalls exEmpty s' = [Call FromIter '''' None])"
proof -
  have p1: "isBlockDir exPartial ''01ARZ3NDEKTSV4RRFFQ69G5FAV/'' = Some ulidD"
    and p2: "fst (snd (loadMeta exPartial ulidD))"
    and p3: "fst (execute exPartial exEmpty) = None"
    and p4: "originPartialMeta (metrics (snd (execute exPartial exEmpty))) = 2"
    by code_simp+
  have q1: "snd (fetcher exHard) = Some (IOError ''fetch failed'')"
    and q2: "Cause (IOError ''fetch failed'') \<noteq> ErrorSyncMetaNotFound"
    and q3: "fst (nextFault exEmpty) = None"
    and q4: "list_ex (\<lambda>n. isBlockDir exHard n \<noteq> None) (listed exHard '''')"
    by code_simp+
  note partial = loadMeta_partial_or_fatal [of exPartial ulidD "''01ARZ3NDEKTSV4RRFFQ69G5FAV/''" "[]" exEmpty
      "IOError ''fetch failed''"]
  note hard = loadMeta_partial_or_fatal [of exHard ulidD "''01ARZ3NDEKTSV4RRFFQ69G5FAV/''" "[]" exEmpty
      "IOError ''fetch failed''"]
  from partial p1 p2 have a: "discoverBlock exPartial ''01ARZ3NDEKTSV4RRFFQ69G5FAV/'' ([], exEmpty)
       = (None, [], incOriginPartialMeta (incOriginMetaLoads (incOriginIterations exEmpty)))"
    by blast
  from q4 have q4': "\<exists>n\<in>set (listed exHard ''''). isBlockDir exHard n \<noteq> None"
    by (simp add: list_ex_iff)
  from hard q1 q2 q3 q4' have b:
    "loadMeta exHard ulidD = (None, False, Some (Wrap (IOError ''fetch failed'') ''fetch meta''))"
    "\<exists>b s'. execute exHard exEmpty =
          (Some (Wrap (Wrap (Wrap (IOError ''fetch failed'') ''fetch meta'')
                   (''load meta for block '' @ ulidString b @ '' from origin bucket''))
                 ''iterate over origin bucket''), s')
        \<and> toBkt s' = toBkt exEmpty \<and> newCalls exEmpty s' = [Call FromIter '''' None]"
    by blast+
  from p1 p2 p3 p4 q1 q2 q3 q4 a b show ?thesis by blast
qed



text \<open>
  C4.  Let the discovery of a pass succeed and let \<open>B\<close> be a candidate, \<open>pre\<close> the
  candidates that \<open>sort.Slice\<close> has put before it and \<open>post\<close> those it has put after
  it, whatever it does with blocks of equal \<open>MinTime\<close>.  If the transfers of
  \<open>pre\<close> succeed and the transfer of \<open>B\<close> fails with error \<open>e\<close>, the pass returns
  \<open>e\<close> wrapped with the block's identifier, in the very state in which the transfer of
  \<open>B\<close> ended, and the block transfers started in the pass are those of \<open>pre\<close> and
  \<open>B\<close>: none of \<open>post\<close> is attempted.
\<close>

theorem fail_fast:
  assumes "fromBkt_Iter rs '''' (discoverBlock rs) ([], s) = (None, availableBlocks, s0)"
      and "sortByMinTime rs (filter (blockFilter rs) availableBlocks) = pre @ B # post"
      and "replicateCandidates rs pre s0 = (None, s1)"
      and "ensureBlockIsReplicated rs (ULID (BlockMeta B)) s1 = (Some e, s2)"
  shows "execute rs s =
           (Some (Wrap e (''ensure block '' @ ulidString (ULID (BlockMeta B)) @ '' is replicated'')),
            s2)
       \<and> transfersStarted (newCalls s s2) = map blockMetaFile (pre @ [B])"
proof -
  let ?err = "Wrap e (''ensure block '' @ ulidString (ULID (BlockMeta B)) @ '' is replicated'')"
  have loop: "replicateCandidates rs (pre @ B # post) s0 = (Some ?err, s2)"
    using assms(3,4) by (simp add: candidates_append)
  then have ex: "execute rs s = (Some ?err, s2)"
    using assms(1,2) by (simp add: execute_def)
  from Iter_discover_frame [OF assms(1)] obtain out where
    c0: "calls s0 = calls s @ [Call FromIter '''' out]" by blast
  from candidates_started [OF assms(3)] obtain k cs where
    c1: "calls s1 = calls s0 @ cs" "transfersStarted cs = map blockMetaFile (take k pre)"
      "k = length pre"
    by blast
  from ensureBlock_started [OF assms(4)] obtain cs2 where
    c2: "calls s2 = calls s1 @ cs2" "transfersStarted cs2 = [blockMetaFile B]"
    by blast
  have "newCalls s s2 = Call FromIter '''' out # cs @ cs2"
    using c0 c1(1) c2(1) by (intro newCalls_append) simp
  then have "transfersStarted (newCalls s s2) = map blockMetaFile (pre @ [B])"
    using c1(2,3) c2(2) by (simp add: transfersStarted_def)
  with ex show ?thesis by simp
qed

theorem fail_fast_witness:
  "fst (fromBkt_Iter exFetched '''' (discoverBlock exFetched) ([], exFirstFails)) = None
   \<and> sortByMinTime exFetched (candidateBlocks exFetched exFirstFails)
       = [exMeta ulidE 10, exMeta ulidD 50]
   \<and> fst (execute exFetched exFirstFails)
       = Some (Wrap (Wrap (IOError ''injected'') ''get meta file from origin bucket'')
                 ''ensure block 01BX5ZZKBKACTAV9WEVGEMMVRZ is replicated'')
   \<and> transfersStarted (newCalls exFirstFails (snd (execute exFetched exFirstFails)))
       = [''01BX5ZZKBKACTAV9WEVGEMMVRZ/meta.json'']
   \<and> candidateBlocks exTied exFirstFails = [exMeta ulidD 10, exMeta ulidE 10]
   \<and> sortByMinTime exTied (candidateBlocks exTied exFirstFails)
       = [exMeta ulidE 10, exMeta ulidD 10]
   \<and> fst (execute exTied exFirstFails)
       = Some (Wrap (Wrap (IOError ''injected'') ''get meta file from origin bucket'')
                 ''ensure block 01BX5ZZKBKACTAV9WEVGEMMVRZ is replicated'')
   \<and> transfersStarted (newCalls exFirstFails (snd (execute exTied exFirstFails)))
       = [''01BX5ZZKBKACTAV9WEVGEMMVRZ/meta.json'']
   \<and> sortByMinTime exTiedStable (candidateBlocks exTiedStable exFirstFails)
       = [exMeta ulidD 10, exMeta ulidE 10]
   \<and> fst (execute exTiedStable exFirstFails)
       = Some (Wrap (Wrap (IOError ''injected'') ''get meta file from origin bucket'')
                 ''ensure block 01ARZ3NDEKTSV4RRFFQ69G5FAV is replicated'')
   \<and> transfersStarted (newCalls exFirstFails (snd (execute exTiedStable exFirstFails)))
       = [''01ARZ3NDEKTSV4RRFFQ69G5FAV/meta.json'']"
proof -
  let ?e = "Wrap (IOError ''injected'') ''get meta file from origin bucket''"
  have first: "fst (execute exFetched exFirstFails)
       = Some (Wrap ?e ''ensure block 01BX5ZZKBKACTAV9WEVGEMMVRZ is replicated'')
     \<and> transfersStarted (newCalls exFirstFails (snd (execute exFetched exFirstFails)))
       = [''01BX5ZZKBKACTAV9WEVGEMMVRZ/meta.json'']"
  proof -
    let ?found = "fromBkt_Iter exFetched '''' (discoverBlock exFetched) ([], exFirstFails)"
    let ?s0 = "snd (snd ?found)"
    let ?B = "exMeta ulidE 10"
    let ?run = "ensureBlockIsReplicated exFetched (ULID (BlockMeta ?B)) ?s0"
    have "fst ?found = None" by code_simp
    then have h1: "?found = (None, fst (snd ?found), ?s0)" by (intro pairI) simp_all
    have h2: "sortByMinTime exFetched (filter (blockFilter exFetched) (fst (snd ?found)))
                = [] @ ?B # [exMeta ulidD 50]"
      by code_simp
    have h3: "replicateCandidates exFetched [] ?s0 = (None, ?s0)" by simp
    have "fst ?run = Some ?e" by code_simp
    then have h4: "?run = (Some ?e, snd ?run)" by (intro pairI) simp_all
    have m: "ulidString (ULID (BlockMeta ?B)) = ''01BX5ZZKBKACTAV9WEVGEMMVRZ''"
      "blockMetaFile ?B = ''01BX5ZZKBKACTAV9WEVGEMMVRZ/meta.json''"
      by code_simp+
    from fail_fast [OF h1 h2 h3 h4] show ?thesis by (simp add: m)
  qed
  have tied: "fst (execute exTied exFirstFails)
       = Some (Wrap ?e ''ensure block 01BX5ZZKBKACTAV9WEVGEMMVRZ is replicated'')
     \<and> transfersStarted (newCalls exFirstFails (snd (execute exTied exFirstFails)))
       = [''01BX5ZZKBKACTAV9WEVGEMMVRZ/meta.json'']"
  proof -
    let ?found = "fromBkt_Iter exTied '''' (discoverBlock exTied) ([], exFirstFails)"
    let ?s0 = "snd (snd ?found)"
    let ?B = "exMeta ulidE 10"
    let ?run = "ensureBlockIsReplicated exTied (ULID (BlockMeta ?B)) ?s0"
    have "fst ?found = None" by code_simp
    then have h1: "?found = (None, fst (snd ?found), ?s0)" by (intro pairI) simp_all
    have h2: "sortByMinTime exTied (filter (blockFilter exTied) (fst (snd ?found)))
                = [] @ ?B # [exMeta ulidD 10]"
      by code_simp
    have h3: "replicateCandidates exTied [] ?s0 = (None, ?s0)" by simp
    have "fst ?run = Some ?e" by code_simp
    then have h4: "?run = (Some ?e, snd ?run)" by (intro pairI) simp_all
    have m: "ulidString (ULID (BlockMeta ?B)) = ''01BX5ZZKBKACTAV9WEVGEMMVRZ''"
      "blockMetaFile ?B = ''01BX5ZZKBKACTAV9WEVGEMMVRZ/meta.json''"
      by code_simp+
    from fail_fast [OF h1 h2 h3 h4] show ?thesis by (simp add: m)
  qed
  have stable: "fst (execute exTiedStable exFirstFails)
       = Some (Wrap ?e ''ensure block 01ARZ3NDEKTSV4RRFFQ69G5FAV is replicated'')
     \<and> transfersStarted (newCalls exFirstFails (snd (execute exTiedStable exFirstFails)))
       = [''01ARZ3NDEKTSV4RRFFQ69G5FAV/meta.json'']"
  proof -
    let ?found = "fromBkt_Iter exTiedStable '''' (discoverBlock exTiedStable) ([], exFirstFails)"
    let ?s0 = "snd (snd ?found)"
    let ?B = "exMeta ulidD 10"
    let ?run = "ensureBlockIsReplicated exTiedStable (ULID (BlockMeta ?B)) ?s0"
    have "fst ?found = None" by code_simp
    then have h1: "?found = (None, fst (snd ?found), ?s0)" by (intro pairI) simp_all
    have h2: "sortByMinTime exTiedStable (filter (blockFilter exTiedStable) (fst (snd ?found)))
                = [] @ ?B # [exMeta ulidE 10]"
      by code_simp
    have h3: "replicateCandidates exTiedStable [] ?s0 = (None, ?s0)" by simp
    have "fst ?run = Some ?e" by code_simp
    then have h4: "?run = (Some ?e, snd ?run)" by (intro pairI) simp_all
    have m: "ulidString (ULID (BlockMeta ?B)) = ''01ARZ3NDEKTSV4RRFFQ69G5FAV''"
      "blockMetaFile ?B = ''01ARZ3NDEKTSV4RRFFQ69G5FAV/meta.json''"
      by code_simp+
    from fail_fast [OF h1 h2 h3 h4] show ?thesis by (simp add: m)
  qed
  have ev: "fst (fromBkt_Iter exFetched '''' (discoverBlock exFetched) ([], exFirstFails)) = None"
    "sortByMinTime exFetched (candidateBlocks exFetched exFirstFails)
       = [exMeta ulidE 10, exMeta ulidD 50]"
    "candidateBlocks exTied exFirstFails = [exMeta ulidD 10, exMeta ulidE 10]"
    "sortByMinTime exTied (candidateBlocks exTied exFirstFails)
       = [exMeta ulidE 10, exMeta ulidD 10]"
    "sortByMinTime exTiedStable (candidateBlocks exTiedStable exFirstFails)
       = [exMeta ulidD 10, exMeta ulidE 10]"
    by code_simp+
  from first tied stable ev show ?thesis by simp
qed

text \<open>
  C2.  Let \<open>sort.Slice\<close> keep its promise (\<open>sortSliceSorts\<close>).  Let a pass succeed and let a second pass run on the
  same origin, from the state the first one left, with no failure injected.  The second pass succeeds, leaves the target
  bucket as it was, makes no upload call, leaves \<open>blocksReplicated\<close> and
  \<open>objectsReplicated\<close> as they were, and adds to \<open>blocksAlreadyReplicated\<close> one for
  each candidate block, each of which the first pass left committed.
\<close>

theorem second_pass_changes_nothing:
  assumes "execute rs s = (None, s1)" and "faults s1 = []" and "execute rs s1 = (r2, s2)"
      and "sortSliceSorts rs"
  shows "r2 = None \<and> toBkt s2 = toBkt s1 \<and> uploads (newCalls s1 s2) = []
       \<and> blocksReplicated (metrics s2) = blocksReplicated (metrics s1)
       \<and> objectsReplicated (metrics s2) = objectsReplicated (metrics s1)
       \<and> blocksAlreadyReplicated (metrics s2)
           = blocksAlreadyReplicated (metrics s1) + length (candidateBlocks rs s1)
       \<and> list_all (\<lambda>b. committed rs s1 (ULID (BlockMeta b))) (candidateBlocks rs s1)"
proof -
  from assms(1) obtain s0 where first: "fst (nextFault s) = None"
    "fst (fromBkt_Iter rs '''' (discoverBlock rs) ([], s)) = None"
    "replicateCandidates rs (sortByMinTime rs (candidateBlocks rs s)) s0 = (None, s1)"
    by (cases rule: execute_parts) auto
  have nf: "fst (nextFault s1) = None" using assms(2) by (simp add: nextFault_def)
  note same = discovery_indep [OF first(1) nf, of rs]
  let ?bs = "sortByMinTime rs (candidateBlocks rs s1)"
  note perm = set_sortByMinTime [OF assms(4)]
  have com: "\<forall>b\<in>set ?bs. committed rs s1 (ULID (BlockMeta b))"
    using candidates_commit [OF first(3)] same(2) by (simp add: perm)
  from assms(3) show ?thesis
  proof (cases rule: execute_parts)
    case (listing out)
    then show ?thesis using same(1) first(2) by simp
  next
    case (transfers t0)
    have "\<forall>b\<in>set ?bs. committed rs t0 (ULID (BlockMeta b))"
      using com committed_cong [OF transfers(4)] by simp
    moreover have "faults t0 = []" using transfers(6) assms(2) by simp
    ultimately obtain s' cs where
      sec: "replicateCandidates rs ?bs t0 = (None, s')" "toBkt s' = toBkt t0"
        "calls s' = calls t0 @ cs" "uploads cs = []"
        "metrics s' = (metrics t0)\<lparr>blocksAlreadyReplicated :=
                           blocksAlreadyReplicated (metrics t0) + length ?bs\<rparr>"
      using candidates_second [of ?bs rs t0] by blast
    from sec(1) transfers(3) have eq: "r2 = None" "s2 = s'" by auto
    have "newCalls s1 s2 = Call FromIter '''' None # cs"
      using sec(3) transfers(5) eq by (intro newCalls_append) simp
    then have "uploads (newCalls s1 s2) = []" using sec(4) by (simp add: uploads_def)
    moreover have "toBkt s2 = toBkt s1" using sec(2) transfers(4) eq by simp
    moreover have "blocksReplicated (metrics s2) = blocksReplicated (metrics s1)"
      "blocksAlreadyReplicated (metrics s2)
           = blocksAlreadyReplicated (metrics s1) + length (candidateBlocks rs s1)"
      using sec(5) transfers(7) eq by (auto simp: blockCounters_def perm)
    moreover have "objectsReplicated (metrics s2) = objectsReplicated (metrics s1)"
      using sec(5) transfers(8) eq by simp
    moreover have "list_all (\<lambda>b. committed rs s1 (ULID (BlockMeta b))) (candidateBlocks rs s1)"
      using com by (simp add: list_all_iff perm)
    ultimately show ?thesis using eq(1) by simp
  qed
qed

theorem second_pass_changes_nothing_witness:
  "fst (execute exFetched exEmpty) = None
   \<and> faults exAfterPass = []
   \<and> blocksReplicated (metrics exAfterPass) = 2
   \<and> length (candidateBlocks exFetched exAfterPass) = 2
   \<and> fst (execute exFetched exAfterPass) = None
   \<and> toBkt (snd (execute exFetched exAfterPass)) = toBkt exAfterPass
   \<and> uploads (newCalls exAfterPass (snd (execute exFetched exAfterPass))) = []
   \<and> blocksReplicated (metrics (snd (execute exFetched exAfterPass))) = 2
   \<and> objectsReplicated (metrics (snd (execute exFetched exAfterPass)))
       = objectsReplicated (metrics exAfterPass)
   \<and> blocksAlreadyReplicated (metrics (snd (execute exFetched exAfterPass)))
       = blocksAlreadyReplicated (metrics exAfterPass) + 2"
proof -
  let ?second = "execute exFetched exAfterPass"
  have ok: "fst (execute exFetched exEmpty) = None" by code_simp
  then have h1: "execute exFetched exEmpty = (None, exAfterPass)"
    by (intro pairI) (simp_all add: exAfterPass_def)
  have h2: "faults exAfterPass = []" by code_simp
  have h3: "?second = (fst ?second, snd ?second)" by simp
  have n: "blocksReplicated (metrics exAfterPass) = 2"
    "length (candidateBlocks exFetched exAfterPass) = 2"
    by code_simp+
  from second_pass_changes_nothing [OF h1 h2 h3 exFetched_sorts] ok h2 n show ?thesis by simp
qed

end
